theory Spec2Isabelle
  imports Complex_Main
begin

section \<open>Numbers\<close>

text \<open>
  The program computes with numpy's float64 values. They are modelled as real numbers
  (no rounding); where the source can leave the finite numbers (a division by zero, a
  value parsed from a file) the model uses \<open>npfloat\<close>, the reals extended by the three
  special values of IEEE 754.
\<close>

datatype npfloat = Fin real | PInf | MInf | NaN

text \<open>\<open>a / b\<close> on float64 scalars: a zero divisor gives a warning and inf or nan, no exception.\<close>

definition np_div :: "real \<Rightarrow> real \<Rightarrow> npfloat" where
  "np_div a b =
     (if b \<noteq> 0 then Fin (a / b)
      else if a = 0 then NaN
      else if 0 < a then PInf else MInf)"

text \<open>\<open>c + x\<close> and \<open>c * x\<close> for a finite \<open>c\<close>.\<close>

fun np_add_fin :: "real \<Rightarrow> npfloat \<Rightarrow> npfloat" where
  "np_add_fin c (Fin r) = Fin (c + r)"
| "np_add_fin c PInf = PInf"
| "np_add_fin c MInf = MInf"
| "np_add_fin c NaN = NaN"

fun np_mul_fin :: "real \<Rightarrow> npfloat \<Rightarrow> npfloat" where
  "np_mul_fin c (Fin r) = Fin (c * r)"
| "np_mul_fin c PInf = (if c = 0 then NaN else if 0 < c then PInf else MInf)"
| "np_mul_fin c MInf = (if c = 0 then NaN else if 0 < c then MInf else PInf)"
| "np_mul_fin c NaN = NaN"

text \<open>\<open>np.clip(a, lo, hi)\<close> is \<open>minimum(maximum(a, lo), hi)\<close>; nan propagates.\<close>

definition np_clip :: "'a::linorder \<Rightarrow> 'a \<Rightarrow> 'a \<Rightarrow> 'a" where
  "np_clip a lo hi = min (max a lo) hi"

fun np_clip_f :: "npfloat \<Rightarrow> real \<Rightarrow> real \<Rightarrow> npfloat" where
  "np_clip_f (Fin r) lo hi = Fin (np_clip r lo hi)"
| "np_clip_f PInf lo hi = Fin (np_clip (max lo hi) lo hi)"
| "np_clip_f MInf lo hi = Fin (np_clip (min lo hi) lo hi)"
| "np_clip_f NaN lo hi = NaN"

text \<open>\<open>int(x)\<close> on a float truncates toward zero.\<close>

definition py_int :: "real \<Rightarrow> int" where
  "py_int r = (if 0 \<le> r then \<lfloor>r\<rfloor> else \<lceil>r\<rceil>)"

text \<open>
  \<open>np.linspace(start, stop, num)\<close>: \<open>num\<close> samples, the step \<open>(stop - start) / (num - 1)\<close>,
  the only sample \<open>start\<close> when \<open>num = 1\<close>.
\<close>

definition linspace :: "real \<Rightarrow> real \<Rightarrow> nat \<Rightarrow> real list" where
  "linspace start stop num =
     (if num = 1 then [start]
      else map (\<lambda>i. start + real i * ((stop - start) / real (num - 1))) [0..<num])"

text \<open>
  \<open>np.interp(x, [x0, x1], (f0, f1))\<close> with two sample points, following numpy's
  \<open>arr_interp\<close>: a key right of \<open>x1\<close> gives \<open>f1\<close>, a key left of \<open>x0\<close> gives \<open>f0\<close>;
  otherwise the search returns the last index \<open>j\<close> with \<open>xp[j] \<le> x\<close>, the last sample
  point gives \<open>fp[j]\<close>, an exact hit gives \<open>fp[j]\<close>, and only a key strictly between the
  two points is interpolated. No case divides by \<open>x1 - x0 = 0\<close>.
\<close>

definition np_interp :: "real \<Rightarrow> real \<times> real \<Rightarrow> real \<times> real \<Rightarrow> real" where
  "np_interp x xp fp =
     (let x0 = fst xp; x1 = snd xp; f0 = fst fp; f1 = snd fp in
      if x1 < x then f1
      else if x < x0 then f0
      else if x1 \<le> x then f1
      else if x0 = x then f0
      else (f1 - f0) / (x1 - x0) * (x - x0) + f0)"

section \<open>Configuration, features, events\<close>

text \<open>Class \<open>Config\<close>: the fields the sonification reads.\<close>

record config =
  max_duration :: real
  base_bpm :: int
  note_duration :: real
  dynamic_range :: "int \<times> int"
  instruments :: "(string \<times> int) list"
  pitch_curve :: "real \<Rightarrow> int"

text \<open>The values \<open>Config.__init__\<close> sets; the pitch curve is \<open>int(30 + 5*(x**0.5))\<close>.\<close>

definition default_config :: config where
  "default_config =
     \<lparr> max_duration = 90, base_bpm = 80, note_duration = 2, dynamic_range = (60, 100),
       instruments = [(''main'', 87), (''ambient'', 103), (''bass'', 24), (''effect'', 101)],
       pitch_curve = (\<lambda>x. py_int (30 + 5 * sqrt x)) \<rparr>"

text \<open>The dictionaries \<open>_extract_features\<close> and \<open>_generate_events\<close> build.\<close>

record feature =
  angle :: real
  intensity :: real
  deviation :: real
  score :: real

record event =
  time :: real
  duration :: npfloat
  pitch :: int
  velocity :: int

section \<open>Event generation\<close>

text \<open>
  The body of the loop in \<open>_generate_events\<close> for one pair \<open>(t, f)\<close>. \<open>lo\<close>, \<open>hi\<close> are the
  least and greatest intensity and \<open>top_score\<close> the greatest score of the features passed in;
  the source recomputes them in every iteration.
\<close>

definition make_event :: "config \<Rightarrow> real \<Rightarrow> real \<Rightarrow> real \<Rightarrow> real \<Rightarrow> feature \<Rightarrow> event" where
  "make_event cfg lo hi top_score t f =
     (let raw_pitch = pitch_curve cfg (deviation f);
          clipped_pitch = np_clip raw_pitch 0 127;
          raw_vol = py_int (np_interp (intensity f) (lo, hi)
                      (real_of_int (fst (dynamic_range cfg)), real_of_int (snd (dynamic_range cfg))));
          volume = np_clip raw_vol 0 127
      in \<lparr> time = t,
           duration = np_clip_f
             (np_mul_fin (note_duration cfg) (np_add_fin (1/2) (np_div (score f) top_score)))
             (1/2) (max_duration cfg),
           pitch = clipped_pitch,
           velocity = volume \<rparr>)"

text \<open>
  \<open>_generate_events\<close>. With no feature the loop body never runs (and \<open>min\<close>, \<open>max\<close> of an
  empty sequence are never taken); otherwise \<open>zip\<close> pairs the i-th time point with the
  i-th feature of the list as it was passed.
\<close>

definition generate_events :: "config \<Rightarrow> feature list \<Rightarrow> event list" where
  "generate_events cfg features =
     (case features of
        [] \<Rightarrow> []
      | f0 # rest \<Rightarrow>
          (let time_points = linspace (1/10) (max_duration cfg) (length features);
               lo = fold min (map intensity rest) (intensity f0);
               hi = fold max (map intensity rest) (intensity f0);
               top_score = fold max (map score rest) (score f0)
           in map (\<lambda>(t, f). make_event cfg lo hi top_score t f) (zip time_points features)))"

section \<open>Feature extraction\<close>

datatype error = ValueError | IndexError | OverflowError

text \<open>
  \<open>scipy.signal.savgol_filter(x, window_length=11, polyorder=3)\<close> is a library call that
  computes in float64; its rounding is not modelled. The model of \<open>_extract_features\<close>
  takes the filter as the parameter \<open>smooth\<close>, and what is proved for every \<open>smooth\<close>
  holds for the library's function whatever it rounds to. \<open>valid_smoother\<close> is what the
  library documents of it in the default mode \<open>interp\<close>: an input shorter than the window
  raises \<open>ValueError\<close>, any other input gives an array of the same length.
\<close>

definition valid_smoother :: "(real list \<Rightarrow> error + real list) \<Rightarrow> bool" where
  "valid_smoother smooth =
     (\<forall>x. (length x < 11 \<longrightarrow> smooth x = Inl ValueError)
        \<and> (11 \<le> length x \<longrightarrow> (\<exists>y. smooth x = Inr y \<and> length y = length x)))"

text \<open>
  \<open>savgol_exact\<close> is the filter in exact arithmetic, for the examples. The filter fits a
  cubic by least squares to a window of 11 samples and evaluates it: row \<open>k\<close> of the table
  below gives the fitted value at position \<open>k\<close> of the window as a combination of the
  window's samples. An inner sample is the centre (row 5) of the window around it; the
  first five samples are rows 0 to 4 of the first window, the last five are rows 6 to 10
  of the last window. The float64 filter agrees with it up to rounding only, and rounding
  can create or remove an extremum and break a tie; the examples below therefore use
  curves on which rounding decides nothing: samples that are 0 except for isolated
  samples 1, at least 11 places from both ends and from each other. There a window of
  zeros gives exactly 0 in float64 too, a window around a sample 1 gives the filter's
  coefficients, equal from one such window to the next, and every comparison the code
  makes between two different smoothed values has a margin far above rounding.
\<close>

definition sg_rows :: "real list list" where
  "sg_rows =
    [map (\<lambda>c. c / 143) [113, 48, 8, -12, -17, -12, -2, 8, 13, 8, -12],
     map (\<lambda>c. c / 143) [48, 41, 32, 22, 12, 3, -4, -8, -8, -3, 8],
     map (\<lambda>c. c / 429) [24, 96, 123, 116, 86, 44, 1, -32, -44, -24, 39],
     map (\<lambda>c. c / 858) [-72, 132, 232, 251, 212, 138, 52, -23, -64, -48, 48],
     map (\<lambda>c. c / 429) [-51, 36, 86, 106, 103, 84, 56, 26, 1, -12, -6],
     map (\<lambda>c. c / 429) [-36, 9, 44, 69, 84, 89, 84, 69, 44, 9, -36],
     map (\<lambda>c. c / 429) [-6, -12, 1, 26, 56, 84, 103, 106, 86, 36, -51],
     map (\<lambda>c. c / 858) [48, -48, -64, -23, 52, 138, 212, 251, 232, 132, -72],
     map (\<lambda>c. c / 429) [39, -24, -44, -32, 1, 44, 86, 116, 123, 96, 24],
     map (\<lambda>c. c / 143) [8, -3, -8, -8, -4, 3, 12, 22, 32, 41, 48],
     map (\<lambda>c. c / 143) [-12, 8, 13, 8, -2, -12, -17, -12, 8, 48, 113]]"

definition dot :: "real list \<Rightarrow> real list \<Rightarrow> real" where
  "dot cs xs = sum_list (map (\<lambda>(c, x). c * x) (zip cs xs))"

definition savgol_exact :: "real list \<Rightarrow> error + real list" where
  "savgol_exact x =
     (let n = length x in
      if n < 11 then Inl ValueError
      else Inr (map (\<lambda>i.
             if i < 5 then dot (sg_rows ! i) (take 11 x)
             else if n - 5 \<le> i then dot (sg_rows ! (i + 11 - n)) (drop (n - 11) x)
             else dot (sg_rows ! 5) (take 11 (drop (i - 5) x)))
           [0..<n]))"

text \<open>\<open>np.std\<close>: the population standard deviation.\<close>

definition np_mean :: "real list \<Rightarrow> real" where
  "np_mean xs = sum_list xs / real (length xs)"

definition np_var :: "real list \<Rightarrow> real" where
  "np_var xs = np_mean (map (\<lambda>v. (v - np_mean xs)\<^sup>2) xs)"

definition np_std :: "real list \<Rightarrow> real" where
  "np_std xs = sqrt (np_var xs)"

text \<open>
  \<open>scipy.signal.find_peaks(x, prominence=p)\<close>. Its first pass is \<open>_local_maxima_1d\<close>: a
  sample (or the middle of a plateau of equal samples) with a strictly smaller sample on
  each side; the first and the last sample are never maxima. \<open>plateau_end\<close> is the inner
  loop that looks ahead for the next sample unequal to \<open>x[i]\<close>.
\<close>

function plateau_end :: "real list \<Rightarrow> real \<Rightarrow> nat \<Rightarrow> nat" where
  "plateau_end x v i_ahead =
     (if i_ahead < length x - 1 \<and> x ! i_ahead = v then plateau_end x v (i_ahead + 1)
      else i_ahead)"
  by pat_completeness auto
termination
  by (relation "measure (\<lambda>(x, v, i_ahead). length x - 1 - i_ahead)") auto

declare plateau_end.simps [simp del]

lemma plateau_end_ge: "i \<le> plateau_end x v i"
proof (induction x v i rule: plateau_end.induct)
  case (1 x v i_ahead)
  show ?case
  proof (cases "i_ahead < length x - 1 \<and> x ! i_ahead = v")
    case True
    then have "plateau_end x v i_ahead = plateau_end x v (i_ahead + 1)"
      by (subst plateau_end.simps) simp
    moreover from 1 True have "i_ahead + 1 \<le> plateau_end x v (i_ahead + 1)" by blast
    ultimately show ?thesis by linarith
  next
    case False
    then have "plateau_end x v i_ahead = i_ahead"
      by (subst plateau_end.simps) auto
    then show ?thesis by simp
  qed
qed

function local_maxima :: "real list \<Rightarrow> nat \<Rightarrow> nat list" where
  "local_maxima x i =
     (if i < length x - 1 then
        (if x ! (i - 1) < x ! i then
           (let i_ahead = plateau_end x (x ! i) (i + 1) in
            if x ! i_ahead < x ! i
            then ((i + (i_ahead - 1)) div 2) # local_maxima x (i_ahead + 1)
            else local_maxima x (i + 1))
         else local_maxima x (i + 1))
      else [])"
  by pat_completeness auto
termination
proof (relation "measure (\<lambda>(x, i). length x - i)")
  show "wf (measure (\<lambda>(x, i). length x - i))" by simp
next
  fix x :: "real list" and i i_ahead :: nat
  assume "i < length x - 1" and "i_ahead = plateau_end x (x ! i) (i + 1)"
  moreover have "i + 1 \<le> plateau_end x (x ! i) (i + 1)" by (rule plateau_end_ge)
  ultimately show "((x, i_ahead + 1), (x, i)) \<in> measure (\<lambda>(x, i). length x - i)" by simp
next
  fix x :: "real list" and i i_ahead :: nat
  assume "i < length x - 1"
  then show "((x, i + 1), (x, i)) \<in> measure (\<lambda>(x, i). length x - i)" by simp
next
  fix x :: "real list" and i :: nat
  assume "i < length x - 1"
  then show "((x, i + 1), (x, i)) \<in> measure (\<lambda>(x, i). length x - i)" by simp
qed

declare local_maxima.simps [simp del]

text \<open>
  \<open>peak_prominences\<close>: from the peak, walk left and then right while the samples do not
  exceed the peak, keeping the least sample seen; the prominence is the peak's height
  above the higher of the two minima. \<open>find_peaks\<close> keeps the maxima whose prominence is
  at least \<open>p\<close> (\<open>pmin <= prominences\<close>).
\<close>

fun scan_min :: "real \<Rightarrow> real \<Rightarrow> real list \<Rightarrow> real" where
  "scan_min h m [] = m"
| "scan_min h m (y # ys) = (if y \<le> h then scan_min h (if y < m then y else m) ys else m)"

definition prominence :: "real list \<Rightarrow> nat \<Rightarrow> real" where
  "prominence x peak =
     (let left_min = scan_min (x ! peak) (x ! peak) (rev (take (Suc peak) x));
          right_min = scan_min (x ! peak) (x ! peak) (drop peak x)
      in x ! peak - max left_min right_min)"

definition find_peaks :: "real list \<Rightarrow> real \<Rightarrow> nat list" where
  "find_peaks x p = filter (\<lambda>peak. p \<le> prominence x peak) (local_maxima x 1)"

text \<open>
  The loop body of \<open>_extract_features\<close> for the indices in the order the set yields them;
  \<open>angles[idx]\<close> raises \<open>IndexError\<close> out of range.
\<close>

definition make_feature :: "real list \<Rightarrow> real list \<Rightarrow> nat \<Rightarrow> feature" where
  "make_feature angles smoothed idx =
     (let dev = \<bar>angles ! idx - 90\<bar>;
          sc = smoothed ! idx * (1 + dev / 10)
      in \<lparr> angle = angles ! idx, intensity = smoothed ! idx, deviation = dev, score = sc \<rparr>)"

fun collect_features :: "real list \<Rightarrow> real list \<Rightarrow> nat list \<Rightarrow> error + feature list" where
  "collect_features angles smoothed [] = Inr []"
| "collect_features angles smoothed (idx # rest) =
     (if idx < length angles \<and> idx < length smoothed then
        (case collect_features angles smoothed rest of
           Inl e \<Rightarrow> Inl e
         | Inr features \<Rightarrow> Inr (make_feature angles smoothed idx # features))
      else Inl IndexError)"

text \<open>
  \<open>_extract_features\<close>, with the smoothing filter \<open>smooth\<close>. The loop runs over
  \<open>set(peaks.tolist() + valleys.tolist())\<close>; the language leaves the iteration order of a
  set open, so the model takes it as the parameter \<open>set_order\<close>: the list in which the
  set built from a list is iterated. \<open>sorted(features, key=lambda x: -x["score"])\<close> is a
  stable sort, as \<open>sort_key\<close> is.
\<close>

definition candidate_indices :: "(nat list \<Rightarrow> nat list) \<Rightarrow> real list \<Rightarrow> nat list" where
  "candidate_indices set_order smoothed =
     (let peaks = find_peaks smoothed (np_std smoothed * (1/2));
          valleys = find_peaks (map uminus smoothed) (np_std smoothed * (1/2))
      in set_order (peaks @ valleys))"

definition extract_features ::
    "(real list \<Rightarrow> error + real list) \<Rightarrow> (nat list \<Rightarrow> nat list) \<Rightarrow> real list \<Rightarrow> real list
       \<Rightarrow> error + feature list" where
  "extract_features smooth set_order angles intensities =
     (case smooth intensities of
        Inl e \<Rightarrow> Inl e
      | Inr smoothed \<Rightarrow>
          (case collect_features angles smoothed (candidate_indices set_order smoothed) of
             Inl e \<Rightarrow> Inl e
           | Inr features \<Rightarrow> Inr (sort_key (\<lambda>f. - score f) features)))"

text \<open>
  What every iteration order satisfies: each element of the set once. Two such orders:
  ascending, and by the slot \<open>k mod m\<close> of a hash table of \<open>m\<close> slots, which is the order
  in which CPython iterates a set of small integers that fills a table of \<open>m\<close> slots
  without collision.
\<close>

definition valid_set_order :: "(nat list \<Rightarrow> nat list) \<Rightarrow> bool" where
  "valid_set_order set_order = (\<forall>xs. distinct (set_order xs) \<and> set (set_order xs) = set xs)"

definition ascending_order :: "nat list \<Rightarrow> nat list" where
  "ascending_order xs = sort (remdups xs)"

definition hash_slot_order :: "nat \<Rightarrow> nat list \<Rightarrow> nat list" where
  "hash_slot_order m xs = sort_key (\<lambda>k. k mod m) (remdups xs)"

section \<open>Loading\<close>

text \<open>
  \<open>_load_data\<close>. The input is the table \<open>np.loadtxt\<close> parses, a list of rows. \<open>loadtxt\<close>
  raises on rows of unequal length and otherwise returns an array squeezed of its
  dimensions of size one, so \<open>data.ndim\<close> is 2 only for at least two rows of at least two
  columns. Every exception is caught and reported as \<open>(None, None)\<close>, here \<open>None\<close>.
  Nothing inspects the values, so the model is polymorphic in them.
\<close>

definition loadtxt_shape :: "'a list list \<Rightarrow> nat list option" where
  "loadtxt_shape rows =
     (case rows of
        [] \<Rightarrow> Some [0]
      | r # rs \<Rightarrow>
          if list_ex (\<lambda>r'. length r' \<noteq> length r) rs then None
          else Some (filter (\<lambda>d. d \<noteq> 1) [length rows, length r]))"

definition load_data :: "'a list list \<Rightarrow> ('a list \<times> 'a list) option" where
  "load_data rows =
     (case loadtxt_shape rows of
        None \<Rightarrow> None
      | Some shape \<Rightarrow>
          if length shape \<noteq> 2 \<or> shape ! 1 \<noteq> 2 then None
          else Some (map (\<lambda>r. r ! 0) rows, map (\<lambda>r. r ! 1) rows))"

section \<open>Ambient effects and the MIDI file\<close>

text \<open>
  The calls made on the \<open>MIDIFile\<close> object that it accepts, in the order they are made.
  Writing the file is a function of this list.
\<close>

datatype midi_event =
    ProgramChange nat nat real int
  | Tempo nat real int
  | ControllerEvent nat nat real int int
  | Note nat nat int real real int

text \<open>
  \<open>MIDIFile.addNote(track, channel, pitch, time, duration, volume)\<close> converts the duration
  to ticks with \<open>int()\<close>, which raises \<open>ValueError\<close> on nan and \<open>OverflowError\<close> on an
  infinity.
\<close>

fun add_note :: "nat \<Rightarrow> nat \<Rightarrow> int \<Rightarrow> real \<Rightarrow> npfloat \<Rightarrow> int \<Rightarrow> error + midi_event" where
  "add_note track channel p t (Fin r) v = Inr (Note track channel p t r v)"
| "add_note track channel p t NaN v = Inl ValueError"
| "add_note track channel p t PInf v = Inl OverflowError"
| "add_note track channel p t MInf v = Inl OverflowError"

text \<open>
  \<open>np.random\<close> is the process-wide generator: no call of the source seeds it or passes
  a generator. Its state is modelled by the stream of numbers in \<open>[0, 1)\<close> it will
  produce; a draw takes the first and leaves the rest. \<open>uniform(lo, hi)\<close> is
  \<open>lo + (hi - lo) * u\<close>; \<open>randint(lo, hi)\<close> is an integer from \<open>lo\<close> up to \<open>hi - 1\<close>;
  \<open>choice(xs)\<close> draws an index.
\<close>

type_synonym rng = "nat \<Rightarrow> real"

definition random_sample :: "rng \<Rightarrow> real \<times> rng" where
  "random_sample g = (g 0, \<lambda>k. g (Suc k))"

definition uniform :: "real \<Rightarrow> real \<Rightarrow> rng \<Rightarrow> real \<times> rng" where
  "uniform lo hi g = (case random_sample g of (u, g') \<Rightarrow> (lo + (hi - lo) * u, g'))"

definition randint :: "int \<Rightarrow> int \<Rightarrow> rng \<Rightarrow> int \<times> rng" where
  "randint lo hi g =
     (case random_sample g of (u, g') \<Rightarrow> (lo + \<lfloor>u * real_of_int (hi - lo)\<rfloor>, g'))"

definition choice :: "int list \<Rightarrow> rng \<Rightarrow> int \<times> rng" where
  "choice xs g = (case randint 0 (int (length xs)) g of (k, g') \<Rightarrow> (xs ! nat k, g'))"

definition valid_rng :: "rng \<Rightarrow> bool" where
  "valid_rng g = (\<forall>k. 0 \<le> g k \<and> g k < 1)"

text \<open>\<open>np.arange(start, stop, step)\<close>: \<open>ceil((stop - start) / step)\<close> values.\<close>

definition arange :: "real \<Rightarrow> real \<Rightarrow> real \<Rightarrow> real list" where
  "arange start stop step =
     map (\<lambda>k. start + real k * step) [0..<nat \<lceil>(stop - start) / step\<rceil>]"

text \<open>
  The first loop of \<open>_add_ambient_effects\<close>, \<open>n\<close> iterations: the onset is drawn first,
  then the arguments of \<open>addNote\<close> in their order, pitch and then volume.
\<close>

fun grace_notes :: "nat \<Rightarrow> real \<Rightarrow> rng \<Rightarrow> midi_event list \<times> rng" where
  "grace_notes 0 d g = ([], g)"
| "grace_notes (Suc n) d g =
     (case uniform (1/2) (d - 2) g of (start_time, g1) \<Rightarrow>
      case choice [84, 86, 89] g1 of (p, g2) \<Rightarrow>
      case randint 30 50 g2 of (v, g3) \<Rightarrow>
      case grace_notes n d g3 of (rest, g4) \<Rightarrow>
        (Note 3 0 p start_time (15/100) (np_clip v 0 127) # rest, g4))"

definition pulse_notes :: "real \<Rightarrow> midi_event list" where
  "pulse_notes d = map (\<lambda>t. Note 2 0 36 t 3 (np_clip 35 0 127)) (arange (2/10) d 4)"

definition add_ambient_effects :: "real \<Rightarrow> rng \<Rightarrow> midi_event list \<times> rng" where
  "add_ambient_effects d g =
     (case grace_notes (nat (py_int (d / 3))) d g of (graces, g') \<Rightarrow>
        (ControllerEvent 2 0 0 91 60 # graces @ pulse_notes d, g'))"

text \<open>
  The loop of \<open>create_midi\<close> over the events: the first event whose note is refused ends
  it with the exception.
\<close>

fun add_melody :: "event list \<Rightarrow> error + midi_event list" where
  "add_melody [] = Inr []"
| "add_melody (evt # rest) =
     (case add_note 0 0 (pitch evt) (time evt) (duration evt) (velocity evt) of
        Inl e \<Rightarrow> Inl e
      | Inr note \<Rightarrow>
          (case add_melody rest of
             Inl e \<Rightarrow> Inl e
           | Inr notes \<Rightarrow> Inr (note # notes)))"

text \<open>
  \<open>create_midi\<close>, up to the writing of the file. An exception of the melody loop leaves
  the function before \<open>_add_ambient_effects\<close> is called: nothing is drawn and no file is
  written.
\<close>

definition create_midi ::
    "config \<Rightarrow> event list \<Rightarrow> real \<Rightarrow> rng \<Rightarrow> error + (midi_event list \<times> rng)" where
  "create_midi cfg events d g =
     (let setup = concat (map (\<lambda>(i, (name, prog)). [ProgramChange i 0 0 prog, Tempo i 0 (base_bpm cfg)])
                    (enumerate 0 (instruments cfg)))
      in case add_melody events of
           Inl e \<Rightarrow> Inl e
         | Inr melody \<Rightarrow>
             (case add_ambient_effects d g of (ambient, g') \<Rightarrow> Inr (setup @ melody @ ambient, g')))"

section \<open>The pipeline\<close>

text \<open>
  \<open>process_file\<close> from the parsed table on, with the smoothing filter \<open>smooth\<close>; the
  report is left out. \<open>Inr None\<close> is the return of \<open>False\<close>, \<open>Inr (Some midi)\<close> the return
  of \<open>True\<close> with the content of the MIDI file, \<open>Inl e\<close> an exception that leaves the
  function (it catches none).
\<close>

definition process_file ::
    "(real list \<Rightarrow> error + real list) \<Rightarrow> (nat list \<Rightarrow> nat list) \<Rightarrow> config \<Rightarrow> real list list \<Rightarrow> rng
       \<Rightarrow> error + (midi_event list option \<times> rng)" where
  "process_file smooth set_order cfg table g =
     (case load_data table of
        None \<Rightarrow> Inr (None, g)
      | Some (angles, intensities) \<Rightarrow>
          (case extract_features smooth set_order angles intensities of
             Inl e \<Rightarrow> Inl e
           | Inr features \<Rightarrow>
               if features = [] then Inr (None, g)
               else (let events = generate_events cfg (take 50 features)
                     in case create_midi cfg events (max_duration cfg) g of
                          Inl e \<Rightarrow> Inl e
                        | Inr (midi, g') \<Rightarrow> Inr (Some midi, g'))))"

section \<open>Example data\<close>

text \<open>Features as \<open>_extract_features\<close> builds them, with \<open>score = intensity * (1 + deviation / 10)\<close>.\<close>

definition feature_a :: feature where
  "feature_a = \<lparr> angle = 90, intensity = 30, deviation = 0, score = 30 \<rparr>"
definition feature_b :: feature where
  "feature_b = \<lparr> angle = 94, intensity = 20, deviation = 4, score = 28 \<rparr>"
definition feature_c :: feature where
  "feature_c = \<lparr> angle = 74, intensity = 10, deviation = 16, score = 26 \<rparr>"
definition flat_a :: feature where
  "flat_a = \<lparr> angle = 86, intensity = 5, deviation = 4, score = 7 \<rparr>"
definition flat_b :: feature where
  "flat_b = \<lparr> angle = 90, intensity = 5, deviation = 0, score = 5 \<rparr>"
definition zero_feature :: feature where
  "zero_feature = \<lparr> angle = 50, intensity = 0, deviation = 40, score = 0 \<rparr>"


definition neg_feature :: feature where
  "neg_feature = \<lparr> angle = 70, intensity = -1, deviation = 20, score = -3 \<rparr>"

definition example_rng :: rng where
  "example_rng k = real (k mod 4) / 4"

definition nan_table :: "npfloat list list" where
  "nan_table = [[Fin 10, NaN], [Fin 20, Fin 3], [Fin 30, PInf]]"

definition three_column_table :: "real list list" where
  "three_column_table = [[10, 1, 0], [20, 3, 0]]"

definition example_rng2 :: rng where
  "example_rng2 k = (if k < 6 then real (k mod 4) / 4 else 0)"

definition example_rng3 :: rng where
  "example_rng3 k = real ((k + 2) mod 4) / 4"

text \<open>
  Sample curves. A curve of 52 samples that are 0 except for a 1 at the indices 20 and 35,
  with angles that step by 1 from 60 to 80 at index 20, by 2 to 90 at index 25, by 1 to
  100 at index 35 and by 2 from there on: the two samples 1 lie at the angles 80 and 100,
  equally far from 90. And a curve of 12 samples 0.
\<close>

definition spike_intensities :: "real list" where
  "spike_intensities =
     [0, 0, 0, 0, 0, 0, 0, 0, 0, 0, 0, 0, 0,
      0, 0, 0, 0, 0, 0, 0, 1, 0, 0, 0, 0, 0,
      0, 0, 0, 0, 0, 0, 0, 0, 0, 1, 0, 0, 0,
      0, 0, 0, 0, 0, 0, 0, 0, 0, 0, 0, 0, 0]"

definition spike_angles :: "real list" where
  "spike_angles =
     [60, 61, 62, 63, 64, 65, 66, 67, 68, 69, 70, 71, 72,
      73, 74, 75, 76, 77, 78, 79, 80, 82, 84, 86, 88, 90,
      91, 92, 93, 94, 95, 96, 97, 98, 99, 100, 102, 104, 106,
      108, 110, 112, 114, 116, 118, 120, 122, 124, 126, 128, 130, 132]"

definition spike_table :: "real list list" where
  "spike_table = map (\<lambda>(a, i). [a, i]) (zip spike_angles spike_intensities)"

text \<open>The curve smoothed in exact arithmetic: the coefficients of the filter around each sample 1.\<close>

definition spike_smoothed :: "real list" where
  "spike_smoothed =
     map (\<lambda>c. c / 429)
       [0, 0, 0, 0, 0, 0, 0, 0, 0, 0, 0, 0, 0,
        0, 0, -36, 9, 44, 69, 84, 89, 84, 69, 44, 9, -36,
        0, 0, 0, 0, -36, 9, 44, 69, 84, 89, 84, 69, 44,
        9, -36, 0, 0, 0, 0, 0, 0, 0, 0, 0, 0, 0]"

definition peak_early :: feature where
  "peak_early = \<lparr> angle = 80, intensity = 89 / 429, deviation = 10, score = 178 / 429 \<rparr>"

definition peak_late :: feature where
  "peak_late = \<lparr> angle = 100, intensity = 89 / 429, deviation = 10, score = 178 / 429 \<rparr>"

definition zero_intensities :: "real list" where
  "zero_intensities = [0, 0, 0, 0, 0, 0, 0, 0, 0, 0, 0, 0]"

definition zero_angles :: "real list" where
  "zero_angles = [80, 82, 84, 86, 88, 90, 92, 94, 96, 98, 100, 102]"

definition zero_table :: "real list list" where
  "zero_table = map (\<lambda>(a, i). [a, i]) (zip zero_angles zero_intensities)"

section \<open>Facts about the numeric helpers\<close>

lemma fold_min_le: "fold min xs (x::real) \<le> x"
proof (induction xs arbitrary: x)
  case Nil
  show ?case by simp
next
  case (Cons a xs)
  have "fold min xs (min a x) \<le> min a x" by (rule Cons.IH)
  then show ?case by simp
qed

lemma fold_min_le_mem: "y \<in> set xs \<Longrightarrow> fold min xs (x::real) \<le> y"
proof (induction xs arbitrary: x)
  case Nil
  then show ?case by simp
next
  case (Cons a xs)
  show ?case
  proof (cases "y = a")
    case True
    have "fold min xs (min a x) \<le> min a x" by (rule fold_min_le)
    with True show ?thesis by simp
  next
    case False
    with Cons show ?thesis by simp
  qed
qed

lemma fold_max_ge: "(x::real) \<le> fold max xs x"
proof (induction xs arbitrary: x)
  case Nil
  show ?case by simp
next
  case (Cons a xs)
  have "max a x \<le> fold max xs (max a x)" by (rule Cons.IH)
  then show ?case by simp
qed

lemma fold_max_ge_mem: "y \<in> set xs \<Longrightarrow> (y::real) \<le> fold max xs x"
proof (induction xs arbitrary: x)
  case Nil
  then show ?case by simp
next
  case (Cons a xs)
  show ?case
  proof (cases "y = a")
    case True
    have "max a x \<le> fold max xs (max a x)" by (rule fold_max_ge)
    with True show ?thesis by simp
  next
    case False
    with Cons show ?thesis by simp
  qed
qed

lemma fold_min_const: "\<forall>y \<in> set xs. y = c \<Longrightarrow> fold min xs (c::real) = c"
  by (induction xs) auto

lemma fold_max_const: "\<forall>y \<in> set xs. y = c \<Longrightarrow> fold max xs (c::real) = c"
  by (induction xs) auto

lemma length_linspace: "length (linspace a b n) = n"
  by (simp add: linspace_def)

lemma length_generate_events: "length (generate_events cfg fs) = length fs"
  by (cases fs) (simp_all add: generate_events_def Let_def length_linspace)

lemma py_int_of_int: "py_int (real_of_int k) = k"
  by (simp add: py_int_def)

lemma py_int_bounds:
  assumes "real_of_int a \<le> r" "r \<le> real_of_int b"
  shows "a \<le> py_int r \<and> py_int r \<le> b"
proof (cases "0 \<le> r")
  case True
  then show ?thesis using assms by (simp add: py_int_def le_floor_iff floor_le_iff)
next
  case False
  then show ?thesis using assms by (simp add: py_int_def le_ceiling_iff ceiling_le_iff)
qed

lemma np_interp_bounds:
  assumes "f0 \<le> f1"
  shows "f0 \<le> np_interp x (x0, x1) (f0, f1) \<and> np_interp x (x0, x1) (f0, f1) \<le> f1"
proof -
  have mid: "f0 \<le> (f1 - f0) / (x1 - x0) * (x - x0) + f0 \<and> (f1 - f0) / (x1 - x0) * (x - x0) + f0 \<le> f1"
    if "x0 < x" "x < x1"
  proof -
    have d: "0 < x1 - x0" using that by simp
    define u where "u = (x - x0) / (x1 - x0)"
    have u: "0 \<le> u" "u \<le> 1" using that d by (simp_all add: u_def)
    have eq: "(f1 - f0) / (x1 - x0) * (x - x0) + f0 = (f1 - f0) * u + f0"
      by (simp add: u_def)
    have "0 \<le> (f1 - f0) * u" using assms u by simp
    moreover have "(f1 - f0) * u \<le> (f1 - f0) * 1"
      using assms u by (intro mult_left_mono) simp_all
    ultimately show ?thesis unfolding eq by simp
  qed
  show ?thesis
    using assms mid by (auto simp: np_interp_def Let_def)
qed

lemma np_interp_equal: "np_interp c (c, c) fp = snd fp"
  by (simp add: np_interp_def)

lemma fold_max_Max: "fold max (map g rest) (g f0) = Max (g ` set (f0 # rest))"
proof -
  have "Max (set (g f0 # map g rest)) = fold max (map g rest) (g f0)"
    by (rule Max.set_eq_fold)
  then show ?thesis by simp
qed

lemma generate_events_nth:
  assumes "fs = f0 # rest" "i < length fs"
  shows "generate_events cfg fs ! i =
           make_event cfg (fold min (map intensity rest) (intensity f0))
             (fold max (map intensity rest) (intensity f0))
             (fold max (map score rest) (score f0))
             (linspace (1/10) (max_duration cfg) (length fs) ! i) (fs ! i)"
  using assms by (simp add: generate_events_def Let_def length_linspace)

lemma generate_events_mem:
  assumes "e \<in> set (generate_events cfg fs)"
  obtains f0 rest t f where "fs = f0 # rest" "f \<in> set fs"
    "e = make_event cfg (fold min (map intensity rest) (intensity f0))
             (fold max (map intensity rest) (intensity f0))
             (fold max (map score rest) (score f0)) t f"
proof (cases fs)
  case Nil
  with assms show ?thesis by (simp add: generate_events_def)
next
  case (Cons f0 rest)
  from assms obtain t f where "(t, f) \<in> set (zip (linspace (1/10) (max_duration cfg) (length fs)) fs)"
    and e: "e = make_event cfg (fold min (map intensity rest) (intensity f0))
             (fold max (map intensity rest) (intensity f0))
             (fold max (map score rest) (score f0)) t f"
    unfolding Cons generate_events_def Let_def by auto
  then have "f \<in> set fs" by (auto dest: set_zip_rightD)
  with Cons e that show ?thesis by blast
qed

lemma velocity_make_event:
  "velocity (make_event cfg lo hi ts t f) =
     np_clip (py_int (np_interp (intensity f) (lo, hi)
        (real_of_int (fst (dynamic_range cfg)), real_of_int (snd (dynamic_range cfg))))) 0 127"
  by (simp add: make_event_def Let_def)

lemma pitch_make_event:
  "pitch (make_event cfg lo hi ts t f) = np_clip (pitch_curve cfg (deviation f)) 0 127"
  by (simp add: make_event_def Let_def)

lemma duration_make_event:
  "duration (make_event cfg lo hi ts t f) =
     np_clip_f (np_mul_fin (note_duration cfg) (np_add_fin (1/2) (np_div (score f) ts)))
       (1/2) (max_duration cfg)"
  by (simp add: make_event_def Let_def)

lemma time_make_event: "time (make_event cfg lo hi ts t f) = t"
  by (simp add: make_event_def Let_def)

lemma fold_min_Min: "fold min (map g rest) (g f0) = Min (g ` set (f0 # rest))"
proof -
  have "Min (set (g f0 # map g rest)) = fold min (map g rest) (g f0)"
    by (rule Min.set_eq_fold)
  then show ?thesis by simp
qed

lemma generate_events_nth_Max:
  assumes "i < length fs"
  shows "generate_events cfg fs ! i =
           make_event cfg (Min (intensity ` set fs)) (Max (intensity ` set fs))
             (Max (score ` set fs))
             (linspace (1/10) (max_duration cfg) (length fs) ! i) (fs ! i)"
proof (cases fs)
  case Nil
  with assms show ?thesis by simp
next
  case (Cons f0 rest)
  show ?thesis
    unfolding generate_events_nth [OF Cons assms] fold_min_Min fold_max_Max
    by (simp add: Cons)
qed

lemma map_time_generate_events:
  "map time (generate_events cfg fs) = linspace (1/10) (max_duration cfg) (length fs)"
proof (cases fs)
  case Nil
  then show ?thesis by (simp add: generate_events_def linspace_def)
next
  case (Cons f0 rest)
  have "map time (generate_events cfg fs) =
          map fst (zip (linspace (1/10) (max_duration cfg) (length fs)) fs)"
    unfolding Cons generate_events_def Let_def list.case
    by (simp add: time_make_event split_def)
  also have "\<dots> = linspace (1/10) (max_duration cfg) (length fs)"
    by (rule map_fst_zip) (simp add: length_linspace)
  finally show ?thesis .
qed

lemma nth_linspace:
  "i < n \<Longrightarrow> linspace a b n ! i = (if n = 1 then a else a + real i * ((b - a) / real (n - 1)))"
  by (auto simp: linspace_def)

lemma linspace_last: "1 < n \<Longrightarrow> linspace a b n ! (n - 1) = b"
  by (simp add: nth_linspace)

lemma linspace_mono:
  assumes "a \<le> b" "i \<le> j" "j < n"
  shows "linspace a b n ! i \<le> linspace a b n ! j"
proof (cases "n = 1")
  case True
  with assms show ?thesis by (simp add: nth_linspace)
next
  case False
  have "0 \<le> (b - a) / real (n - 1)" using assms(1) by simp
  then have "real i * ((b - a) / real (n - 1)) \<le> real j * ((b - a) / real (n - 1))"
    using assms(2) by (intro mult_right_mono) simp_all
  with assms False show ?thesis by (simp add: nth_linspace)
qed

lemma sorted_linspace: "a \<le> b \<Longrightarrow> sorted (linspace a b n)"
  by (simp add: sorted_iff_nth_mono length_linspace linspace_mono)

lemma sorted_rev_nth:
  assumes "sorted (rev xs)" "i \<le> j" "j < length xs"
  shows "xs ! j \<le> xs ! i"
proof -
  let ?n = "length xs"
  have "rev xs ! (?n - 1 - j) \<le> rev xs ! (?n - 1 - i)"
    using assms by (intro sorted_nth_mono) auto
  then show ?thesis using assms by (simp add: rev_nth)
qed

lemma duration_finite:
  assumes "ts \<noteq> 0"
  shows "duration (make_event cfg lo hi ts t f) =
           Fin (np_clip (note_duration cfg * (1/2 + score f / ts)) (1/2) (max_duration cfg))"
  using assms by (simp add: duration_make_event np_div_def)

section \<open>Velocity\<close>

text \<open>
  Claim C3, as amended. When all features passed to event generation have the same
  intensity, every event's velocity is the upper end of \<open>dynamic_range\<close> clamped to
  \<open>[0, 127]\<close>: the interpolation receives the key at its last sample point and returns the
  last value. Nothing is divided by zero.
\<close>

theorem equal_intensity_velocity:
  assumes "\<forall>f \<in> set fs. intensity f = c" "e \<in> set (generate_events cfg fs)"
  shows "velocity e = np_clip (snd (dynamic_range cfg)) 0 127"
proof -
  from assms(2) obtain f0 rest t f where fs: "fs = f0 # rest" and f: "f \<in> set fs"
    and e: "e = make_event cfg (fold min (map intensity rest) (intensity f0))
             (fold max (map intensity rest) (intensity f0))
             (fold max (map score rest) (score f0)) t f"
    by (rule generate_events_mem)
  have c0: "intensity f0 = c" and cf: "intensity f = c" using assms(1) fs f by auto
  have "\<forall>y \<in> set (map intensity rest). y = c" using assms(1) fs by auto
  then have lo: "fold min (map intensity rest) c = c" and hi: "fold max (map intensity rest) c = c"
    by (simp_all only: fold_min_const fold_max_const)
  show ?thesis
    unfolding e velocity_make_event c0 cf lo hi np_interp_equal
    by (simp add: py_int_of_int)
qed

theorem equal_intensity_velocity_witness:
  "velocity (generate_events default_config [flat_a, flat_b] ! 0) = 100"
proof -
  let ?evs = "generate_events default_config [flat_a, flat_b]"
  have m: "?evs ! 0 \<in> set ?evs"
    by (rule nth_mem) (simp add: length_generate_events)
  have "\<forall>f \<in> set [flat_a, flat_b]. intensity f = 5" by (simp add: feature_a_def feature_b_def feature_c_def flat_a_def flat_b_def zero_feature_def)
  from equal_intensity_velocity [OF this m] show ?thesis
    by (simp add: default_config_def np_clip_def)
qed

text \<open>
  Claim C3 as stated fails: with \<open>dynamic_range = (60, 100)\<close> and two features of intensity
  5, both velocities are 100, not the midpoint 80.
\<close>

theorem equal_intensity_counterexample:
  "map velocity (generate_events default_config [flat_a, flat_b]) = [100, 100] \<and>
   intensity flat_a = intensity flat_b \<and>
   (fst (dynamic_range default_config) + snd (dynamic_range default_config)) div 2 = 80"
  by (simp add: generate_events_def linspace_def make_event_def feature_a_def feature_b_def feature_c_def flat_a_def flat_b_def zero_feature_def default_config_def
      np_interp_def np_clip_def py_int_def Let_def)

text \<open>
  Claim C10. For a dynamic range \<open>(lo, hi)\<close> with \<open>lo \<le> hi\<close> that meets \<open>[0, 127]\<close>, every
  event's velocity lies in \<open>[lo, hi]\<close>.
\<close>

theorem velocity_within_dynamic_range:
  assumes "fst (dynamic_range cfg) \<le> snd (dynamic_range cfg)"
    and "fst (dynamic_range cfg) \<le> 127" and "0 \<le> snd (dynamic_range cfg)"
    and "e \<in> set (generate_events cfg fs)"
  shows "fst (dynamic_range cfg) \<le> velocity e \<and> velocity e \<le> snd (dynamic_range cfg)"
proof -
  from assms(4) obtain f0 rest t f where "fs = f0 # rest" "f \<in> set fs" and
    e: "e = make_event cfg (fold min (map intensity rest) (intensity f0))
             (fold max (map intensity rest) (intensity f0))
             (fold max (map score rest) (score f0)) t f"
    by (rule generate_events_mem)
  define v where "v = py_int (np_interp (intensity f)
      (fold min (map intensity rest) (intensity f0), fold max (map intensity rest) (intensity f0))
      (real_of_int (fst (dynamic_range cfg)), real_of_int (snd (dynamic_range cfg))))"
  have "real_of_int (fst (dynamic_range cfg)) \<le> real_of_int (snd (dynamic_range cfg))"
    using assms(1) by simp
  then have "fst (dynamic_range cfg) \<le> v \<and> v \<le> snd (dynamic_range cfg)"
    unfolding v_def by (intro py_int_bounds) (simp_all add: np_interp_bounds)
  moreover have "velocity e = np_clip v 0 127"
    unfolding e velocity_make_event v_def ..
  ultimately show ?thesis
    using assms(2,3) by (auto simp: np_clip_def min_def max_def)
qed

theorem velocity_within_dynamic_range_witness:
  "velocity (generate_events default_config [feature_a, feature_b, feature_c] ! 1) = 80 \<and>
   60 \<le> velocity (generate_events default_config [feature_a, feature_b, feature_c] ! 1) \<and>
   velocity (generate_events default_config [feature_a, feature_b, feature_c] ! 1) \<le> 100"
proof -
  let ?evs = "generate_events default_config [feature_a, feature_b, feature_c]"
  have m: "?evs ! 1 \<in> set ?evs"
    by (rule nth_mem) (simp add: length_generate_events)
  have v: "velocity (?evs ! 1) = 80"
    by (simp add: generate_events_nth [where ?f0.0 = feature_a] velocity_make_event feature_a_def feature_b_def feature_c_def flat_a_def flat_b_def zero_feature_def
        default_config_def np_interp_def np_clip_def py_int_def)
  have "fst (dynamic_range default_config) \<le> velocity (?evs ! 1) \<and>
        velocity (?evs ! 1) \<le> snd (dynamic_range default_config)"
    by (rule velocity_within_dynamic_range [OF _ _ _ m]) (simp_all add: default_config_def)
  with v show ?thesis by (simp add: default_config_def)
qed

section \<open>Durations\<close>

text \<open>
  When the greatest score of the feature set is not zero, each event's duration is
  \<open>clamp(note_duration * (0.5 + score / max score), 0.5, max_duration)\<close>; for a single
  feature (whose score is then not zero) it is \<open>clamp(note_duration * 1.5, 0.5, max_duration)\<close>.
\<close>

theorem duration_formula:
  assumes "i < length fs" "Max (score ` set fs) \<noteq> 0"
  shows "duration (generate_events cfg fs ! i) =
           Fin (np_clip (note_duration cfg * (1/2 + score (fs ! i) / Max (score ` set fs)))
                  (1/2) (max_duration cfg))
         \<and> (length fs = 1 \<longrightarrow>
              duration (generate_events cfg fs ! 0) =
                Fin (np_clip (note_duration cfg * (3/2)) (1/2) (max_duration cfg)))"
proof (intro conjI impI)
  show "duration (generate_events cfg fs ! i) =
           Fin (np_clip (note_duration cfg * (1/2 + score (fs ! i) / Max (score ` set fs)))
                  (1/2) (max_duration cfg))"
    unfolding generate_events_nth_Max [OF assms(1)] by (rule duration_finite) (rule assms(2))
next
  assume "length fs = 1"
  then obtain f where fs: "fs = [f]" by (cases fs) auto
  with assms(2) have nz: "score f \<noteq> 0" by simp
  have "duration (generate_events cfg fs ! 0) =
          Fin (np_clip (note_duration cfg * (1/2 + score (fs ! 0) / Max (score ` set fs)))
                  (1/2) (max_duration cfg))"
    unfolding generate_events_nth_Max [of 0 fs, unfolded fs, simplified, folded fs]
    using assms(2) by (simp add: duration_finite fs)
  also have "1/2 + score (fs ! 0) / Max (score ` set fs) = 3/2"
    using nz by (simp add: fs)
  finally show "duration (generate_events cfg fs ! 0) =
                Fin (np_clip (note_duration cfg * (3/2)) (1/2) (max_duration cfg))" .
qed

theorem duration_formula_witness:
  "duration (generate_events default_config [feature_a, feature_b, feature_c] ! 1) = Fin (43/15)
   \<and> duration (generate_events default_config [feature_a] ! 0) = Fin 3"
proof -
  have m3: "Max (score ` set [feature_a, feature_b, feature_c]) = 30"
    by (simp add: feature_a_def feature_b_def feature_c_def)
  have m1: "Max (score ` set [feature_a]) = 30" by (simp add: feature_a_def)
  have a: "duration (generate_events default_config [feature_a, feature_b, feature_c] ! 1) =
      Fin (np_clip (note_duration default_config *
          (1/2 + score ([feature_a, feature_b, feature_c] ! 1) / Max (score ` set [feature_a, feature_b, feature_c])))
                  (1/2) (max_duration default_config))"
    using duration_formula [of 1 "[feature_a, feature_b, feature_c]" default_config] m3 by simp
  have b: "duration (generate_events default_config [feature_a] ! 0) =
                Fin (np_clip (note_duration default_config * (3/2)) (1/2) (max_duration default_config))"
    using duration_formula [of 0 "[feature_a]" default_config] m1 by simp
  show ?thesis
    unfolding a b m3
    by (simp add: default_config_def np_clip_def feature_b_def)
qed

text \<open>
  Claim C4 (each duration is \<open>clamp(note_duration * (0.5 + score / max score), 0.5,
  max_duration)\<close>, the ratio taken as 1 when the greatest score is zero) fails on the
  source, which divides by the greatest score without a guard: a single feature of score
  0 gets the duration \<open>0/0 = nan\<close>, not \<open>clamp(2 * 1.5, 0.5, 90) = 3\<close>. The nan passes
  \<open>np.clip\<close>, against the bounds the source's own comments give for the duration (a
  minimum, and at most the total duration).
\<close>

theorem duration_guard_counterexample:
  "score zero_feature = 0
   \<and> duration (generate_events default_config [zero_feature] ! 0) = NaN
   \<and> np_clip (note_duration default_config * (3/2)) (1/2) (max_duration default_config) = 3"
  by (simp add: generate_events_def linspace_def make_event_def zero_feature_def default_config_def
      np_div_def np_clip_def Let_def)

section \<open>Ranges of the event fields\<close>

text \<open>
  Every event has pitch and velocity in \<open>[0, 127]\<close>; when the greatest score of the feature
  set is not zero and \<open>0.5 \<le> max_duration\<close>, its duration is a finite number in
  \<open>[0.5, max_duration]\<close>.
\<close>

theorem event_ranges:
  assumes "e \<in> set (generate_events cfg fs)"
  shows "0 \<le> pitch e \<and> pitch e \<le> 127 \<and> 0 \<le> velocity e \<and> velocity e \<le> 127
         \<and> (Max (score ` set fs) \<noteq> 0 \<and> 1/2 \<le> max_duration cfg \<longrightarrow>
              (\<exists>d. duration e = Fin d \<and> 1/2 \<le> d \<and> d \<le> max_duration cfg))"
proof -
  from assms obtain f0 rest t f where fs: "fs = f0 # rest" and "f \<in> set fs" and
    e: "e = make_event cfg (fold min (map intensity rest) (intensity f0))
             (fold max (map intensity rest) (intensity f0))
             (fold max (map score rest) (score f0)) t f"
    by (rule generate_events_mem)
  have top: "fold max (map score rest) (score f0) = Max (score ` set fs)"
    unfolding fs by (rule fold_max_Max)
  have p: "0 \<le> pitch e \<and> pitch e \<le> 127"
    unfolding e pitch_make_event by (simp add: np_clip_def)
  have v: "0 \<le> velocity e \<and> velocity e \<le> 127"
    unfolding e velocity_make_event by (simp add: np_clip_def)
  have d: "\<exists>d. duration e = Fin d \<and> 1/2 \<le> d \<and> d \<le> max_duration cfg"
    if "Max (score ` set fs) \<noteq> 0" "1/2 \<le> max_duration cfg"
  proof -
    have "duration e = Fin (np_clip (note_duration cfg * (1/2 + score f / Max (score ` set fs)))
                  (1/2) (max_duration cfg))"
      unfolding e top by (rule duration_finite) (rule that(1))
    moreover have "1/2 \<le> np_clip x (1/2) (max_duration cfg) \<and>
                   np_clip x (1/2) (max_duration cfg) \<le> max_duration cfg" for x :: real
      using that(2) by (simp add: np_clip_def)
    ultimately show ?thesis by blast
  qed
  from p v d show ?thesis by blast
qed

theorem event_ranges_witness:
  "pitch (generate_events default_config [feature_a, feature_b, feature_c] ! 2) = 50
   \<and> velocity (generate_events default_config [feature_a, feature_b, feature_c] ! 2) = 60
   \<and> duration (generate_events default_config [feature_a, feature_b, feature_c] ! 2) = Fin (41/15)
   \<and> 0 \<le> pitch (generate_events default_config [feature_a, feature_b, feature_c] ! 2)
   \<and> velocity (generate_events default_config [feature_a, feature_b, feature_c] ! 2) \<le> 127"
proof -
  let ?fs = "[feature_a, feature_b, feature_c]"
  let ?e = "generate_events default_config ?fs ! 2"
  have m: "?e \<in> set (generate_events default_config ?fs)"
    by (rule nth_mem) (simp add: length_generate_events)
  have s16: "sqrt 16 = 4" using real_sqrt_abs [of 4] by simp
  have vals: "pitch ?e = 50 \<and> velocity ?e = 60 \<and> duration ?e = Fin (41/15)"
    by (simp add: generate_events_nth [where ?f0.0 = feature_a] make_event_def Let_def
        feature_a_def feature_b_def feature_c_def default_config_def np_interp_def np_clip_def
        py_int_def np_div_def s16)
  from event_ranges [OF m] vals show ?thesis by simp
qed

text \<open>
  Claim C6 (every event has pitch and velocity in \<open>[0, 127]\<close> and a duration in
  \<open>[0.5, max_duration]\<close>) fails for the duration on the source: with a greatest score of
  zero, the feature that attains it gets the duration \<open>0/0 = nan\<close>, which \<open>np.clip\<close> passes
  on and which lies in no interval, against the bounds the source's own comments give
  for the duration.
\<close>

theorem event_ranges_counterexample:
  "duration (generate_events default_config [zero_feature, neg_feature] ! 0) = NaN
   \<and> Max (score ` set [zero_feature, neg_feature]) = 0"
  by (simp add: generate_events_def linspace_def make_event_def zero_feature_def neg_feature_def
      default_config_def np_div_def np_clip_def Let_def)

section \<open>Loading boundary\<close>

lemma load_data_Some_iff:
  "load_data rows = Some (a, i) \<longleftrightarrow>
     2 \<le> length rows \<and> (\<forall>r \<in> set rows. length r = 2)
     \<and> a = map (\<lambda>r. r ! 0) rows \<and> i = map (\<lambda>r. r ! 1) rows"
proof (cases rows)
  case Nil
  then show ?thesis by (simp add: load_data_def loadtxt_shape_def)
next
  case (Cons r rs)
  show ?thesis
  proof (cases "list_ex (\<lambda>r'. length r' \<noteq> length r) rs")
    case True
    then show ?thesis
      unfolding Cons by (auto simp: load_data_def loadtxt_shape_def list_ex_iff)
  next
    case False
    then have same: "\<forall>r' \<in> set rs. length r' = length r" by (simp add: list_ex_iff)
    show ?thesis
    proof (cases "rs = []")
      case True
      then show ?thesis unfolding Cons by (auto simp: load_data_def loadtxt_shape_def)
    next
      case ne: False
      then have l2: "length (r # rs) \<noteq> 1" "2 \<le> length (r # rs)" by (cases rs; simp)+
      show ?thesis
        unfolding Cons using False same ne l2
        by (auto simp: load_data_def loadtxt_shape_def)
    qed
  qed
qed

text \<open>
  Claim C9, as amended. The loader accepts a table exactly when it has at least two rows
  and every row has exactly two entries, and then returns its two columns; a table it
  rejects never reaches feature extraction (\<open>process_file\<close> returns \<open>False\<close>). The values
  are not inspected.
\<close>

theorem load_data_shape:
  "(load_data rows \<noteq> None \<longleftrightarrow> 2 \<le> length rows \<and> (\<forall>r \<in> set rows. length r = 2))
   \<and> (\<forall>a i. load_data rows = Some (a, i) \<longrightarrow>
         a = map (\<lambda>r. r ! 0) rows \<and> i = map (\<lambda>r. r ! 1) rows)
   \<and> (load_data table = None \<longrightarrow> process_file smooth set_order cfg table g = Inr (None, g))"
proof (intro conjI allI impI)
  show "load_data rows \<noteq> None \<longleftrightarrow> 2 \<le> length rows \<and> (\<forall>r \<in> set rows. length r = 2)"
  proof
    assume "load_data rows \<noteq> None"
    then obtain a i where "load_data rows = Some (a, i)" by (cases "load_data rows") auto
    then show "2 \<le> length rows \<and> (\<forall>r \<in> set rows. length r = 2)"
      by (simp add: load_data_Some_iff)
  next
    assume "2 \<le> length rows \<and> (\<forall>r \<in> set rows. length r = 2)"
    then have "load_data rows = Some (map (\<lambda>r. r ! 0) rows, map (\<lambda>r. r ! 1) rows)"
      by (simp add: load_data_Some_iff)
    then show "load_data rows \<noteq> None" by simp
  qed
next
  fix a i assume "load_data rows = Some (a, i)"
  then show "a = map (\<lambda>r. r ! 0) rows" "i = map (\<lambda>r. r ! 1) rows"
    by (simp_all add: load_data_Some_iff)
next
  assume "load_data table = None"
  then show "process_file smooth set_order cfg table g = Inr (None, g)"
    by (simp add: process_file_def)
qed

theorem load_data_shape_witness:
  "load_data three_column_table = None
   \<and> process_file savgol_exact ascending_order default_config three_column_table example_rng
       = Inr (None, example_rng)
   \<and> load_data [[10, 1], [20, 3 :: real]] = Some ([10, 20], [1, 3])"
proof -
  note w = load_data_shape [of three_column_table three_column_table savgol_exact
      ascending_order default_config example_rng]
  have n: "\<not> (2 \<le> length three_column_table \<and> (\<forall>r \<in> set three_column_table. length r = 2))"
    by (simp add: three_column_table_def)
  from w n have a: "load_data three_column_table = None" by blast
  from w a have p: "process_file savgol_exact ascending_order default_config three_column_table
       example_rng = Inr (None, example_rng)" by blast
  note v = load_data_shape [of "[[10, 1], [20, 3 :: real]]" three_column_table savgol_exact
      ascending_order default_config example_rng]
  have y: "2 \<le> length [[10, 1], [20, 3 :: real]]
      \<and> (\<forall>r \<in> set [[10, 1], [20, 3 :: real]]. length r = 2)" by simp
  from v y have "load_data [[10, 1], [20, 3 :: real]] \<noteq> None" by blast
  then obtain x z where c: "load_data [[10, 1], [20, 3 :: real]] = Some (x, z)" by auto
  with v have "x = map (\<lambda>r. r ! 0) [[10, 1], [20, 3 :: real]]
      \<and> z = map (\<lambda>r. r ! 1) [[10, 1], [20, 3 :: real]]" by blast
  with c have "load_data [[10, 1], [20, 3 :: real]] = Some ([10, 20], [1, 3])" by simp
  with a p show ?thesis by blast
qed

text \<open>
  Claim C9 as stated fails: a table of two columns holding \<open>nan\<close> and \<open>inf\<close> is accepted, and
  \<open>process_file\<close> passes the returned columns to feature extraction.
\<close>

theorem load_accepts_non_finite:
  "load_data nan_table = Some ([Fin 10, Fin 20, Fin 30], [NaN, Fin 3, PInf])"
  by (simp add: load_data_def loadtxt_shape_def nan_table_def)

section \<open>Ambient effects\<close>

lemma snd_random_sample: "snd (random_sample g) = (\<lambda>k. g (Suc k))"
  by (simp add: random_sample_def)

lemma grace_notes_Suc:
  "grace_notes (Suc n) d g =
     (Note 3 0 ([84, 86, 89] ! nat \<lfloor>g 1 * 3\<rfloor>) (1/2 + (d - 2 - 1/2) * g 0) (15/100)
        (np_clip (30 + \<lfloor>g 2 * 20\<rfloor>) 0 127)
      # fst (grace_notes n d (\<lambda>k. g (k + 3))),
      snd (grace_notes n d (\<lambda>k. g (k + 3))))"
  by (simp add: uniform_def choice_def randint_def random_sample_def split_def
      numeral_3_eq_3 numeral_2_eq_2)

lemma snd_grace_notes: "snd (grace_notes n d g) = (\<lambda>k. g (k + 3 * n))"
proof (induction n arbitrary: g)
  case 0
  show ?case by simp
next
  case (Suc n)
  show ?case
    unfolding grace_notes_Suc snd_conv Suc.IH by (simp add: add.commute add.left_commute)
qed

lemma fst_grace_notes_cong:
  "(\<And>k. k < 3 * n \<Longrightarrow> g k = g' k) \<Longrightarrow> fst (grace_notes n d g) = fst (grace_notes n d g')"
proof (induction n arbitrary: g g')
  case 0
  show ?case by simp
next
  case (Suc n)
  have "fst (grace_notes n d (\<lambda>k. g (k + 3))) = fst (grace_notes n d (\<lambda>k. g' (k + 3)))"
    by (rule Suc.IH) (simp add: Suc.prems)
  moreover have "g 0 = g' 0" "g 1 = g' 1" "g 2 = g' 2" by (simp_all add: Suc.prems)
  ultimately show ?case unfolding grace_notes_Suc by (simp del: grace_notes.simps(2))
qed

lemma length_grace_notes: "length (fst (grace_notes n d g)) = n"
  by (induction n arbitrary: g) (simp_all add: grace_notes_Suc del: grace_notes.simps(2))

lemma nat_py_int: "nat (py_int r) = nat \<lfloor>r\<rfloor>"
proof (cases "0 \<le> r")
  case True
  then show ?thesis by (simp add: py_int_def)
next
  case False
  then have "\<lceil>r\<rceil> \<le> 0" "\<lfloor>r\<rfloor> \<le> 0" by (simp_all add: ceiling_le_iff floor_le_iff)
  with False show ?thesis by (simp add: py_int_def)
qed

lemma add_ambient_effects_eq:
  "add_ambient_effects d g =
     (ControllerEvent 2 0 0 91 60 # fst (grace_notes (nat \<lfloor>d / 3\<rfloor>) d g) @ pulse_notes d,
      \<lambda>k. g (k + 3 * nat \<lfloor>d / 3\<rfloor>))"
  by (simp add: add_ambient_effects_def nat_py_int split_def snd_grace_notes)

lemma unit_draw_index:
  assumes "0 \<le> (u::real)" "u < 1"
  shows "[84, 86, 89 :: int] ! nat \<lfloor>u * 3\<rfloor> \<in> {84, 86, 89}"
proof -
  have "0 \<le> \<lfloor>u * 3\<rfloor>" using assms by simp
  moreover have "\<lfloor>u * 3\<rfloor> < 3" using assms by (simp add: floor_less_iff)
  ultimately have "\<lfloor>u * 3\<rfloor> = 0 \<or> \<lfloor>u * 3\<rfloor> = 1 \<or> \<lfloor>u * 3\<rfloor> = 2" by linarith
  then show ?thesis by (elim disjE) (simp_all add: numeral_2_eq_2)
qed

lemma unit_draw_index_iff:
  assumes "0 \<le> (u::real)"
  shows "nat \<lfloor>u * 3\<rfloor> = i \<longleftrightarrow> real i / 3 \<le> u \<and> u < (real i + 1) / 3"
proof -
  have "0 \<le> \<lfloor>u * 3\<rfloor>" using assms by simp
  then have "nat \<lfloor>u * 3\<rfloor> = i \<longleftrightarrow> \<lfloor>u * 3\<rfloor> = int i" by linarith
  also have "\<dots> \<longleftrightarrow> real_of_int (int i) \<le> u * 3 \<and> u * 3 < real_of_int (int i) + 1"
    by (rule floor_eq_iff)
  also have "\<dots> \<longleftrightarrow> real i / 3 \<le> u \<and> u < (real i + 1) / 3" by (simp add: field_simps)
  finally show ?thesis .
qed

lemma unit_draw_velocity:
  assumes "0 \<le> (u::real)" "u < 1"
  shows "np_clip (30 + \<lfloor>u * 20\<rfloor>) 0 127 = 30 + \<lfloor>u * 20\<rfloor>"
    and "30 \<le> 30 + \<lfloor>u * 20\<rfloor>" and "30 + \<lfloor>u * 20\<rfloor> \<le> 49"
proof -
  have a: "0 \<le> \<lfloor>u * 20\<rfloor>" using assms by simp
  have b: "\<lfloor>u * 20\<rfloor> < 20" using assms by (simp add: floor_less_iff)
  from a b show "np_clip (30 + \<lfloor>u * 20\<rfloor>) 0 127 = 30 + \<lfloor>u * 20\<rfloor>"
    by (simp add: np_clip_def)
  from a show "30 \<le> 30 + \<lfloor>u * 20\<rfloor>" by simp
  from b show "30 + \<lfloor>u * 20\<rfloor> \<le> 49" by simp
qed

lemma unit_draw_velocity_iff:
  "30 + \<lfloor>(u::real) * 20\<rfloor> = v \<longleftrightarrow>
     (real_of_int v - 30) / 20 \<le> u \<and> u < (real_of_int v - 29) / 20"
proof -
  have "30 + \<lfloor>u * 20\<rfloor> = v \<longleftrightarrow> \<lfloor>u * 20\<rfloor> = v - 30" by linarith
  also have "\<dots> \<longleftrightarrow> real_of_int (v - 30) \<le> u * 20 \<and> u * 20 < real_of_int (v - 30) + 1"
    by (rule floor_eq_iff)
  also have "\<dots> \<longleftrightarrow> (real_of_int v - 30) / 20 \<le> u \<and> u < (real_of_int v - 29) / 20"
    by (simp add: field_simps)
  finally show ?thesis .
qed

lemma unit_draw_onset:
  assumes "0 \<le> (u::real)" "u < 1" "5/2 \<le> (d::real)"
  shows "1/2 \<le> 1/2 + (d - 2 - 1/2) * u" and "1/2 + (d - 2 - 1/2) * u \<le> d - 2"
proof -
  have c: "0 \<le> d - 2 - 1/2" using assms(3) by simp
  then have "0 \<le> (d - 2 - 1/2) * u" using assms(1) by simp
  then show "1/2 \<le> 1/2 + (d - 2 - 1/2) * u" by simp
  have "(d - 2 - 1/2) * u \<le> (d - 2 - 1/2) * 1"
    using c assms(2) by (intro mult_left_mono) simp_all
  then show "1/2 + (d - 2 - 1/2) * u \<le> d - 2" by simp
qed

lemma unit_draw_onset_strict:
  assumes "0 \<le> (u::real)" "u < 1" "3 \<le> (d::real)"
  shows "1/2 \<le> 1/2 + (d - 5/2) * u \<and> 1/2 + (d - 5/2) * u < d - 2"
proof -
  have c: "0 < d - 5/2" using assms(3) by simp
  then have "0 \<le> (d - 5/2) * u" using assms(1) by simp
  moreover have "(d - 5/2) * u < (d - 5/2) * 1"
    using c assms(2) by (intro mult_strict_left_mono) simp_all
  ultimately show ?thesis by simp
qed

lemma grace_notes_ranges:
  assumes "valid_rng g" "5/2 \<le> d" "e \<in> set (fst (grace_notes n d g))"
  shows "\<exists>p t v. e = Note 3 0 p t (15/100) v \<and> p \<in> {84, 86, 89}
           \<and> 1/2 \<le> t \<and> t \<le> d - 2 \<and> 30 \<le> v \<and> v \<le> 49"
  using assms
proof (induction n arbitrary: g)
  case 0
  then show ?case by simp
next
  case (Suc n)
  have u: "0 \<le> g k \<and> g k < 1" for k using Suc.prems(1) by (simp add: valid_rng_def)
  have v': "valid_rng (\<lambda>k. g (k + 3))" using Suc.prems(1) by (simp add: valid_rng_def)
  from Suc.prems(3) consider
      (hd) "e = Note 3 0 ([84, 86, 89] ! nat \<lfloor>g 1 * 3\<rfloor>) (1/2 + (d - 2 - 1/2) * g 0)
                 (15/100) (np_clip (30 + \<lfloor>g 2 * 20\<rfloor>) 0 127)"
    | (tl) "e \<in> set (fst (grace_notes n d (\<lambda>k. g (k + 3))))"
    unfolding grace_notes_Suc by auto
  then show ?case
  proof cases
    case hd
    have "e = Note 3 0 ([84, 86, 89] ! nat \<lfloor>g 1 * 3\<rfloor>) (1/2 + (d - 2 - 1/2) * g 0)
                 (15/100) (30 + \<lfloor>g 2 * 20\<rfloor>)"
      unfolding hd using u [of 2] by (simp only: unit_draw_velocity(1))
    moreover have "[84, 86, 89 :: int] ! nat \<lfloor>g 1 * 3\<rfloor> \<in> {84, 86, 89}"
      using u [of 1] by (intro unit_draw_index) simp_all
    moreover have "1/2 \<le> 1/2 + (d - 2 - 1/2) * g 0" "1/2 + (d - 2 - 1/2) * g 0 \<le> d - 2"
      using u [of 0] Suc.prems(2) by (simp_all only: unit_draw_onset)
    moreover have "30 \<le> 30 + \<lfloor>g 2 * 20\<rfloor>" "30 + \<lfloor>g 2 * 20\<rfloor> \<le> 49"
      using u [of 2] by (simp_all only: unit_draw_velocity)
    ultimately show ?thesis by blast
  next
    case tl
    from Suc.IH [OF v' Suc.prems(2) tl] show ?thesis .
  qed
qed

text \<open>The grace notes as a function of the draws: the j-th takes the draws 3j, 3j+1, 3j+2.\<close>

lemma fst_grace_notes:
  assumes "valid_rng g"
  shows "fst (grace_notes n d g) =
     map (\<lambda>j. Note 3 0 ([84, 86, 89] ! nat \<lfloor>g (3 * j + 1) * 3\<rfloor>) (1/2 + (d - 5/2) * g (3 * j))
                 (15/100) (30 + \<lfloor>g (3 * j + 2) * 20\<rfloor>)) [0..<n]"
  using assms
proof (induction n arbitrary: g)
  case 0
  show ?case by simp
next
  case (Suc n)
  have u: "0 \<le> g k \<and> g k < 1" for k using Suc.prems by (simp add: valid_rng_def)
  have v': "valid_rng (\<lambda>k. g (k + 3))" using Suc.prems by (simp add: valid_rng_def)
  have clip: "np_clip (30 + \<lfloor>g 2 * 20\<rfloor>) 0 127 = 30 + \<lfloor>g 2 * 20\<rfloor>"
    using u [of 2] by (simp only: unit_draw_velocity(1))
  have upt: "[0..<Suc n] = 0 # map Suc [0..<n]"
    by (simp only: upt_conv_Cons [of 0 "Suc n"] map_Suc_upt zero_less_Suc)
  have sh: "3 * Suc j = 3 * j + 3" for j by simp
  show ?case
    unfolding grace_notes_Suc fst_conv Suc.IH [OF v'] clip upt
    by (simp add: add.commute add.left_commute algebra_simps numeral_2_eq_2)
qed

lemma pulse_count: "k < nat \<lceil>(d - 2/10) / 4\<rceil> \<longleftrightarrow> 2/10 + 4 * real k < d"
proof -
  have "k < nat \<lceil>(d - 2/10) / 4\<rceil> \<longleftrightarrow> int k < \<lceil>(d - 2/10) / 4\<rceil>" by auto
  also have "\<dots> \<longleftrightarrow> real_of_int (int k) < (d - 2/10) / 4" by (rule less_ceiling_iff)
  also have "\<dots> \<longleftrightarrow> 2/10 + 4 * real k < d" by (simp add: field_simps)
  finally show ?thesis .
qed

lemma pulse_notes_eq:
  "pulse_notes d = map (\<lambda>k. Note 2 0 36 (2/10 + 4 * real k) 3 35) [0..<nat \<lceil>(d - 2/10) / 4\<rceil>]"
  by (simp add: pulse_notes_def arange_def np_clip_def mult.commute)

lemma valid_example_rng: "valid_rng example_rng"
proof -
  have "real (k mod 4) < 4" for k :: nat
  proof -
    have "k mod 4 < 4" by simp
    then show ?thesis by (simp only: of_nat_less_iff [symmetric, where 'a = real] of_nat_numeral)
  qed
  then show ?thesis by (simp add: valid_rng_def example_rng_def)
qed

lemma valid_example_rng3: "valid_rng example_rng3"
proof -
  have "real (k mod 4) < 4" for k :: nat
  proof -
    have "k mod 4 < 4" by simp
    then show ?thesis by (simp only: of_nat_less_iff [symmetric, where 'a = real] of_nat_numeral)
  qed
  then show ?thesis by (simp add: valid_rng_def example_rng3_def)
qed

lemma grace_notes_example:
  "fst (grace_notes 2 6 example_rng) =
     [Note 3 0 84 (1/2) (15/100) 40, Note 3 0 84 (25/8) (15/100) 35]"
proof -
  have "grace_notes 2 6 example_rng = grace_notes (Suc (Suc 0)) 6 example_rng"
    by (simp only: numeral_2_eq_2)
  then show ?thesis
    by (simp add: grace_notes_Suc example_rng_def np_clip_def del: grace_notes.simps(2))
qed

lemma grace_notes_example_shifted:
  "fst (grace_notes 2 6 (\<lambda>k. example_rng (k + 6))) =
     [Note 3 0 89 (9/4) (15/100) 30, Note 3 0 86 (11/8) (15/100) 45]"
proof -
  have "grace_notes 2 6 (\<lambda>k. example_rng (k + 6)) =
        grace_notes (Suc (Suc 0)) 6 (\<lambda>k. example_rng (k + 6))"
    by (simp only: numeral_2_eq_2)
  then show ?thesis
    by (simp add: grace_notes_Suc example_rng_def np_clip_def del: grace_notes.simps(2))
qed

lemma no_velocity_50:
  assumes "valid_rng g"
  shows "Note 3 0 p t du 50 \<notin> set (fst (add_ambient_effects d g))"
proof
  let ?gr = "fst (grace_notes (nat \<lfloor>d / 3\<rfloor>) d g)"
  assume "Note 3 0 p t du 50 \<in> set (fst (add_ambient_effects d g))"
  then have "Note 3 0 p t du 50 \<in> set ?gr \<or> Note 3 0 p t du 50 \<in> set (pulse_notes d)"
    by (simp add: add_ambient_effects_eq)
  then show False
  proof
    assume e: "Note 3 0 p t du 50 \<in> set ?gr"
    then have "?gr \<noteq> []" by auto
    then have "nat \<lfloor>d / 3\<rfloor> \<noteq> 0" using length_grace_notes [of "nat \<lfloor>d / 3\<rfloor>" d g] by auto
    then have "1 \<le> \<lfloor>d / 3\<rfloor>" by simp
    then have "1 \<le> d / 3" by (simp add: le_floor_iff)
    then have "5/2 \<le> d" by simp
    from grace_notes_ranges [OF assms this e] show False by auto
  next
    assume "Note 3 0 p t du 50 \<in> set (pulse_notes d)"
    then show False by (auto simp: pulse_notes_eq)
  qed
qed

text \<open>
  Claim C8, as amended. For every duration \<open>d\<close> (and a generator whose draws lie in
  \<open>[0, 1)\<close>) the ambient generator adds the controller event, then \<open>floor(d / 3)\<close> grace
  notes on track 3, then the pulses. The j-th grace note is fixed by the draws \<open>u\<close>, \<open>u'\<close>,
  \<open>u''\<close> number 3j, 3j+1 and 3j+2 of the generator: its onset is \<open>0.5 + (d - 2.5) * u\<close>, in
  the half-open interval from 0.5 to \<open>d - 2\<close>; its duration is 0.15; its pitch is the
  entry of 84, 86, 89 at index \<open>floor(3 * u')\<close>, each pitch for a third of the draws; its
  velocity is \<open>30 + floor(20 * u'')\<close>, each of the twenty integers from 30 to 49 for a
  twentieth of the draws and never 50 (the upper bound of \<open>randint\<close> is exclusive), which
  the clamp to \<open>[0, 127]\<close> leaves as it is. The pulses have pitch 36, duration 3 and
  velocity 35 at the onsets \<open>0.2 + 4k\<close> that lie before \<open>d\<close>.
\<close>

theorem ambient_layers:
  assumes "valid_rng g"
  shows "fst (add_ambient_effects d g) =
           ControllerEvent 2 0 0 91 60
           # map (\<lambda>j. Note 3 0 ([84, 86, 89] ! nat \<lfloor>g (3 * j + 1) * 3\<rfloor>)
                         (1/2 + (d - 5/2) * g (3 * j)) (15/100) (30 + \<lfloor>g (3 * j + 2) * 20\<rfloor>))
               [0..<nat \<lfloor>d / 3\<rfloor>]
           @ map (\<lambda>k. Note 2 0 36 (2/10 + 4 * real k) 3 35) [0..<nat \<lceil>(d - 2/10) / 4\<rceil>]
     \<and> (\<forall>j. [84, 86, 89 :: int] ! nat \<lfloor>g (3 * j + 1) * 3\<rfloor> \<in> {84, 86, 89}
            \<and> 30 \<le> 30 + \<lfloor>g (3 * j + 2) * 20\<rfloor> \<and> 30 + \<lfloor>g (3 * j + 2) * 20\<rfloor> \<le> 49
            \<and> np_clip (30 + \<lfloor>g (3 * j + 2) * 20\<rfloor>) 0 127 = 30 + \<lfloor>g (3 * j + 2) * 20\<rfloor>)
     \<and> (\<forall>j i. nat \<lfloor>g (3 * j + 1) * 3\<rfloor> = i \<longleftrightarrow>
                real i / 3 \<le> g (3 * j + 1) \<and> g (3 * j + 1) < (real i + 1) / 3)
     \<and> (\<forall>j v. 30 + \<lfloor>g (3 * j + 2) * 20\<rfloor> = v \<longleftrightarrow>
                (real_of_int v - 30) / 20 \<le> g (3 * j + 2) \<and> g (3 * j + 2) < (real_of_int v - 29) / 20)
     \<and> (\<forall>j < nat \<lfloor>d / 3\<rfloor>. 1/2 \<le> 1/2 + (d - 5/2) * g (3 * j) \<and> 1/2 + (d - 5/2) * g (3 * j) < d - 2)
     \<and> (\<forall>p t du. Note 3 0 p t du 50 \<notin> set (fst (add_ambient_effects d g)))
     \<and> (\<forall>k. k < nat \<lceil>(d - 2/10) / 4\<rceil> \<longleftrightarrow> 2/10 + 4 * real k < d)"
proof -
  have u: "0 \<le> g k \<and> g k < 1" for k using assms by (simp add: valid_rng_def)
  have a: "fst (add_ambient_effects d g) =
           ControllerEvent 2 0 0 91 60
           # map (\<lambda>j. Note 3 0 ([84, 86, 89] ! nat \<lfloor>g (3 * j + 1) * 3\<rfloor>)
                         (1/2 + (d - 5/2) * g (3 * j)) (15/100) (30 + \<lfloor>g (3 * j + 2) * 20\<rfloor>))
               [0..<nat \<lfloor>d / 3\<rfloor>]
           @ map (\<lambda>k. Note 2 0 36 (2/10 + 4 * real k) 3 35) [0..<nat \<lceil>(d - 2/10) / 4\<rceil>]"
    unfolding add_ambient_effects_eq fst_conv fst_grace_notes [OF assms] pulse_notes_eq ..
  have b: "[84, 86, 89 :: int] ! nat \<lfloor>g (3 * j + 1) * 3\<rfloor> \<in> {84, 86, 89}
            \<and> 30 \<le> 30 + \<lfloor>g (3 * j + 2) * 20\<rfloor> \<and> 30 + \<lfloor>g (3 * j + 2) * 20\<rfloor> \<le> 49
            \<and> np_clip (30 + \<lfloor>g (3 * j + 2) * 20\<rfloor>) 0 127 = 30 + \<lfloor>g (3 * j + 2) * 20\<rfloor>" for j
    using u [of "3 * j + 1"] u [of "3 * j + 2"]
    by (intro conjI unit_draw_index unit_draw_velocity) simp_all
  have c: "nat \<lfloor>g (3 * j + 1) * 3\<rfloor> = i \<longleftrightarrow>
                real i / 3 \<le> g (3 * j + 1) \<and> g (3 * j + 1) < (real i + 1) / 3" for j i
    using u [of "3 * j + 1"] by (intro unit_draw_index_iff) simp
  have d: "30 + \<lfloor>g (3 * j + 2) * 20\<rfloor> = v \<longleftrightarrow>
                (real_of_int v - 30) / 20 \<le> g (3 * j + 2) \<and> g (3 * j + 2) < (real_of_int v - 29) / 20"
    for j v by (rule unit_draw_velocity_iff)
  have e: "1/2 \<le> 1/2 + (d - 5/2) * g (3 * j) \<and> 1/2 + (d - 5/2) * g (3 * j) < d - 2"
    if "j < nat \<lfloor>d / 3\<rfloor>" for j
  proof -
    from that have "1 \<le> \<lfloor>d / 3\<rfloor>" by linarith
    then have "1 \<le> d / 3" by (simp add: le_floor_iff)
    then have "3 \<le> d" by simp
    with u [of "3 * j"] show ?thesis by (intro unit_draw_onset_strict) simp_all
  qed
  have f: "Note 3 0 p t du 50 \<notin> set (fst (add_ambient_effects d g))" for p t du
    using assms by (rule no_velocity_50)
  from a b c d e f pulse_count show ?thesis by blast
qed

theorem ambient_layers_witness:
  "valid_rng example_rng3
   \<and> fst (add_ambient_effects 6 example_rng3) =
       [ControllerEvent 2 0 0 91 60,
        Note 3 0 89 (9/4) (15/100) 30, Note 3 0 86 (11/8) (15/100) 45,
        Note 2 0 36 (1/5) 3 35, Note 2 0 36 (21/5) 3 35]
   \<and> Note 3 0 89 (9/4) (15/100) 50 \<notin> set (fst (add_ambient_effects 6 example_rng3))"
proof -
  note w = ambient_layers [OF valid_example_rng3, of 6]
  have n: "nat \<lfloor>6 / 3 :: real\<rfloor> = 2" by simp
  have m: "nat \<lceil>(6 - 2/10) / 4 :: real\<rceil> = 2" by (simp add: ceiling_eq_iff)
  have l: "[0..<2] = [0, Suc 0]" by (simp add: upt_rec numeral_2_eq_2)
  from w have "fst (add_ambient_effects 6 example_rng3) =
           ControllerEvent 2 0 0 91 60
           # map (\<lambda>j. Note 3 0 ([84, 86, 89] ! nat \<lfloor>example_rng3 (3 * j + 1) * 3\<rfloor>)
                         (1/2 + (6 - 5/2) * example_rng3 (3 * j)) (15/100)
                         (30 + \<lfloor>example_rng3 (3 * j + 2) * 20\<rfloor>))
               [0..<nat \<lfloor>6 / 3 :: real\<rfloor>]
           @ map (\<lambda>k. Note 2 0 36 (2/10 + 4 * real k) 3 35) [0..<nat \<lceil>(6 - 2/10) / 4 :: real\<rceil>]"
    by blast
  then have a: "fst (add_ambient_effects 6 example_rng3) =
       [ControllerEvent 2 0 0 91 60,
        Note 3 0 89 (9/4) (15/100) 30, Note 3 0 86 (11/8) (15/100) 45,
        Note 2 0 36 (1/5) 3 35, Note 2 0 36 (21/5) 3 35]"
    unfolding n m l by (simp add: example_rng3_def)
  from w have "Note 3 0 89 (9/4) (15/100) 50 \<notin> set (fst (add_ambient_effects 6 example_rng3))"
    by blast
  with a valid_example_rng3 show ?thesis by blast
qed

text \<open>
  Claim C8 as stated fails: the velocity of a grace note is not drawn from \<open>[30, 50]\<close>. No
  state of the generator gives a grace note of velocity 50.
\<close>

theorem velocity_fifty_never_drawn:
  "\<not> (\<exists>g p t. valid_rng g \<and> Note 3 0 p t (15/100) 50 \<in> set (fst (add_ambient_effects 6 g)))"
  using no_velocity_50 by blast

section \<open>The assembled file\<close>

lemma add_melody_result:
  assumes "\<forall>evt \<in> set evs. duration evt \<noteq> PInf \<and> duration evt \<noteq> MInf"
  shows "if (\<exists>evt \<in> set evs. duration evt = NaN) then add_melody evs = Inl ValueError
         else (\<exists>notes. add_melody evs = Inr notes \<and> length notes = length evs)"
  using assms
proof (induction evs)
  case Nil
  show ?case by simp
next
  case (Cons evt evs)
  from Cons.prems have ih: "if (\<exists>evt \<in> set evs. duration evt = NaN) then add_melody evs = Inl ValueError
         else (\<exists>notes. add_melody evs = Inr notes \<and> length notes = length evs)"
    by (intro Cons.IH) simp
  from Cons.prems have "duration evt \<noteq> PInf" "duration evt \<noteq> MInf" by simp_all
  then consider r where "duration evt = Fin r" | "duration evt = NaN"
    by (cases "duration evt") auto
  then show ?case
  proof cases
    case 1
    with ih show ?thesis by (auto split: if_splits)
  next
    case 2
    then show ?thesis by simp
  qed
qed

lemma add_melody_finite:
  assumes "\<forall>evt \<in> set evs. \<exists>r. duration evt = Fin r"
  shows "\<exists>notes. add_melody evs = Inr notes \<and> length notes = length evs"
proof -
  have "\<forall>evt \<in> set evs. duration evt \<noteq> PInf \<and> duration evt \<noteq> MInf" using assms by auto
  from add_melody_result [OF this] assms show ?thesis by (auto split: if_splits)
qed

lemma np_clip_f_not_inf: "np_clip_f x lo hi \<noteq> PInf \<and> np_clip_f x lo hi \<noteq> MInf"
  by (cases x) simp_all

lemma add_melody_generate_events:
  assumes "fs \<noteq> []"
  shows "if Max (score ` set fs) = 0 then add_melody (generate_events cfg fs) = Inl ValueError
         else (\<exists>notes. add_melody (generate_events cfg fs) = Inr notes)"
proof -
  let ?evs = "generate_events cfg fs"
  let ?top = "Max (score ` set fs)"
  have nth: "duration (?evs ! i) =
      np_clip_f (np_mul_fin (note_duration cfg) (np_add_fin (1/2) (np_div (score (fs ! i)) ?top)))
        (1/2) (max_duration cfg)" if "i < length fs" for i
    unfolding generate_events_nth_Max [OF that] by (rule duration_make_event)
  have no_inf: "\<forall>evt \<in> set ?evs. duration evt \<noteq> PInf \<and> duration evt \<noteq> MInf"
  proof
    fix evt assume "evt \<in> set ?evs"
    then obtain i where i: "i < length fs" "evt = ?evs ! i"
      by (auto simp: in_set_conv_nth length_generate_events)
    show "duration evt \<noteq> PInf \<and> duration evt \<noteq> MInf"
      unfolding i(2) nth [OF i(1)] by (rule np_clip_f_not_inf)
  qed
  show ?thesis
  proof (cases "?top = 0")
    case True
    have "?top \<in> score ` set fs" using assms by (intro Max_in) simp_all
    then obtain i where i: "i < length fs" "score (fs ! i) = ?top"
      by (auto simp: in_set_conv_nth)
    have "duration (?evs ! i) = NaN"
      unfolding nth [OF i(1)] i(2) True by (simp add: np_div_def)
    moreover have "?evs ! i \<in> set ?evs"
      using i(1) by (intro nth_mem) (simp add: length_generate_events)
    ultimately have "\<exists>evt \<in> set ?evs. duration evt = NaN" by blast
    with add_melody_result [OF no_inf] True show ?thesis by simp
  next
    case False
    have "\<forall>evt \<in> set ?evs. \<exists>r. duration evt = Fin r"
    proof
      fix evt assume "evt \<in> set ?evs"
      then obtain i where i: "i < length fs" "evt = ?evs ! i"
        by (auto simp: in_set_conv_nth length_generate_events)
      show "\<exists>r. duration evt = Fin r"
        unfolding i(2) nth [OF i(1)] using False by (simp add: np_div_def)
    qed
    from add_melody_finite [OF this] False show ?thesis by auto
  qed
qed

lemma create_midi_eq:
  "create_midi cfg events d g =
     (case add_melody events of
        Inl e \<Rightarrow> Inl e
      | Inr melody \<Rightarrow>
          Inr (concat (map (\<lambda>(i, (name, prog)). [ProgramChange i 0 0 prog, Tempo i 0 (base_bpm cfg)])
                    (enumerate 0 (instruments cfg)))
               @ melody
               @ ControllerEvent 2 0 0 91 60 # fst (grace_notes (nat \<lfloor>d / 3\<rfloor>) d g) @ pulse_notes d,
               \<lambda>k. g (k + 3 * nat \<lfloor>d / 3\<rfloor>)))"
  by (simp add: create_midi_def add_ambient_effects_eq Let_def split: sum.splits)

text \<open>
  Claim C7, as amended. The source takes no seed: the ambient notes are drawn from the
  process-wide generator. The outcome of assembling the MIDI content (the content, or the
  exception of a note that is refused) is a function of the events, the configuration, the
  duration and the generator's state at the call: it depends on the next
  \<open>3 * floor(d / 3)\<close> draws only, and a call that succeeds, as every call whose events
  have finite durations does, leaves the generator advanced by as many.
\<close>

theorem ambient_determined_by_generator_state:
  "((\<forall>k < 3 * nat \<lfloor>d / 3\<rfloor>. g k = g' k) \<longrightarrow>
      map_sum id fst (create_midi cfg events d g) = map_sum id fst (create_midi cfg events d g'))
   \<and> (\<forall>midi g2. create_midi cfg events d g = Inr (midi, g2) \<longrightarrow>
         g2 = (\<lambda>k. g (k + 3 * nat \<lfloor>d / 3\<rfloor>)))
   \<and> ((\<forall>evt \<in> set events. \<exists>r. duration evt = Fin r) \<longrightarrow>
         (\<exists>midi. create_midi cfg events d g = Inr (midi, \<lambda>k. g (k + 3 * nat \<lfloor>d / 3\<rfloor>))))"
proof (intro conjI impI allI)
  assume "\<forall>k < 3 * nat \<lfloor>d / 3\<rfloor>. g k = g' k"
  then have "fst (grace_notes (nat \<lfloor>d / 3\<rfloor>) d g) = fst (grace_notes (nat \<lfloor>d / 3\<rfloor>) d g')"
    by (intro fst_grace_notes_cong) simp
  then show "map_sum id fst (create_midi cfg events d g) =
             map_sum id fst (create_midi cfg events d g')"
    by (simp add: create_midi_eq split: sum.splits)
next
  fix midi g2 assume "create_midi cfg events d g = Inr (midi, g2)"
  then show "g2 = (\<lambda>k. g (k + 3 * nat \<lfloor>d / 3\<rfloor>))"
    by (auto simp: create_midi_eq split: sum.splits)
next
  assume "\<forall>evt \<in> set events. \<exists>r. duration evt = Fin r"
  then obtain ns where "add_melody events = Inr ns"
    using add_melody_finite by blast
  then show "\<exists>midi. create_midi cfg events d g = Inr (midi, \<lambda>k. g (k + 3 * nat \<lfloor>d / 3\<rfloor>))"
    by (simp add: create_midi_eq)
qed

theorem ambient_determined_by_generator_state_witness:
  "map_sum id fst (create_midi default_config [] 6 example_rng) =
     map_sum id fst (create_midi default_config [] 6 example_rng2)
   \<and> (\<exists>midi. create_midi default_config [] 6 example_rng = Inr (midi, \<lambda>k. example_rng (k + 6)))
   \<and> snd (projr (create_midi default_config [] 6 example_rng)) 0 = 1/2"
proof -
  note w = ambient_determined_by_generator_state [of 6 example_rng example_rng2 default_config "[]"]
  have n: "3 * nat \<lfloor>6 / 3 :: real\<rfloor> = 6" by simp
  have h: "\<forall>k < 3 * nat \<lfloor>6 / 3 :: real\<rfloor>. example_rng k = example_rng2 k"
    unfolding n by (simp add: example_rng_def example_rng2_def)
  from w h have a: "map_sum id fst (create_midi default_config [] 6 example_rng) =
     map_sum id fst (create_midi default_config [] 6 example_rng2)" by blast
  have e: "\<forall>evt \<in> set ([] :: event list). \<exists>r. duration evt = Fin r" by simp
  from w e have "\<exists>midi. create_midi default_config [] 6 example_rng =
      Inr (midi, \<lambda>k. example_rng (k + 3 * nat \<lfloor>6 / 3 :: real\<rfloor>))" by blast
  then have b: "\<exists>midi. create_midi default_config [] 6 example_rng =
      Inr (midi, \<lambda>k. example_rng (k + 6))" unfolding n .
  then have "snd (projr (create_midi default_config [] 6 example_rng)) 0 = example_rng 6"
    by auto
  then have c: "snd (projr (create_midi default_config [] 6 example_rng)) 0 = 1/2"
    by (simp add: example_rng_def)
  from a b c show ?thesis by blast
qed

text \<open>
  Claim C7 as stated fails: assembling twice in a row from the same events, configuration
  and duration gives two different outputs, since the second call starts from the
  generator state the first one left.
\<close>

theorem ambient_not_reproducible:
  "map_sum id fst (create_midi default_config [] 6 example_rng) \<noteq>
   map_sum id fst
     (create_midi default_config [] 6 (snd (projr (create_midi default_config [] 6 example_rng))))"
proof -
  have s: "snd (projr (create_midi default_config [] 6 example_rng)) = (\<lambda>k. example_rng (k + 6))"
    by (simp add: create_midi_eq)
  show ?thesis
    unfolding s
    by (simp add: create_midi_eq grace_notes_example grace_notes_example_shifted)
qed

section \<open>Feature extraction: smoothing and extrema\<close>

lemma valid_savgol_exact: "valid_smoother savgol_exact"
  by (simp add: valid_smoother_def savgol_exact_def Let_def)

lemma local_maxima_const: "local_maxima (replicate n c) i = []"
proof (induction "replicate n c" i rule: local_maxima.induct)
  case (1 i)
  show ?case
  proof (cases "i < length (replicate n c) - 1")
    case True
    then have nl: "\<not> replicate n c ! (i - 1) < replicate n c ! i" by simp
    have "local_maxima (replicate n c) i = local_maxima (replicate n c) (i + 1)"
      by (subst local_maxima.simps) (simp only: True nl if_True if_False)
    also have "\<dots> = []" using True nl by (rule 1(3))
    finally show ?thesis .
  next
    case False
    then show ?thesis by (subst local_maxima.simps) simp
  qed
qed

lemma find_peaks_const: "find_peaks (replicate n c) p = []"
  by (simp add: find_peaks_def local_maxima_const)

lemma valid_set_order_Nil: "valid_set_order so \<Longrightarrow> so [] = []"
  by (simp add: valid_set_order_def) (metis set_empty)

text \<open>A smoothed curve that is constant has no extremum: the result is the empty list.\<close>

lemma extract_features_flat:
  assumes "smooth ints = Inr (replicate n c)" "valid_set_order so"
  shows "extract_features smooth so angles ints = Inr []"
proof -
  have "map uminus (replicate n c) = replicate n (- c)" by simp
  then have "candidate_indices so (replicate n c) = []"
    using assms(2) by (simp add: candidate_indices_def find_peaks_const valid_set_order_Nil)
  then show ?thesis
    using assms(1) by (simp add: extract_features_def)
qed

lemma plateau_end_le: "i \<le> length x - 1 \<Longrightarrow> plateau_end x v i \<le> length x - 1"
proof (induction x v i rule: plateau_end.induct)
  case (1 x v i_ahead)
  show ?case
  proof (cases "i_ahead < length x - 1 \<and> x ! i_ahead = v")
    case True
    then have "plateau_end x v i_ahead = plateau_end x v (i_ahead + 1)"
      by (subst plateau_end.simps) simp
    moreover have "plateau_end x v (i_ahead + 1) \<le> length x - 1"
      using True by (intro 1(1)) simp_all
    ultimately show ?thesis by simp
  next
    case False
    then have "plateau_end x v i_ahead = i_ahead" by (subst plateau_end.simps) auto
    with 1(2) show ?thesis by simp
  qed
qed

lemma local_maxima_bound: "k \<in> set (local_maxima x i) \<Longrightarrow> k < length x - 1"
proof (induction x i rule: local_maxima.induct)
  case (1 x i)
  show ?case
  proof (cases "i < length x - 1")
    case False
    then have "local_maxima x i = []" by (subst local_maxima.simps) simp
    with 1(4) show ?thesis by simp
  next
    case True
    show ?thesis
    proof (cases "x ! (i - 1) < x ! i")
      case False
      then have "local_maxima x i = local_maxima x (i + 1)"
        using True by (subst local_maxima.simps) simp
      with 1(4) have "k \<in> set (local_maxima x (i + 1))" by simp
      with True False show ?thesis by (intro 1(3))
    next
      case up: True
      define a where "a = plateau_end x (x ! i) (i + 1)"
      have a1: "i + 1 \<le> a" unfolding a_def by (rule plateau_end_ge)
      have a2: "a \<le> length x - 1" unfolding a_def using True by (intro plateau_end_le) simp
      show ?thesis
      proof (cases "x ! a < x ! i")
        case False
        then have "local_maxima x i = local_maxima x (i + 1)"
          using True up by (subst local_maxima.simps) (simp add: a_def Let_def)
        with 1(4) have "k \<in> set (local_maxima x (i + 1))" by simp
        with True up False show ?thesis by (intro 1(2) [OF _ _ a_def]) simp_all
      next
        case pk: True
        then have "local_maxima x i = ((i + (a - 1)) div 2) # local_maxima x (a + 1)"
          using True up by (subst local_maxima.simps) (simp add: a_def Let_def)
        with 1(4) consider "k = (i + (a - 1)) div 2" | "k \<in> set (local_maxima x (a + 1))"
          by auto
        then show ?thesis
        proof cases
          case 1
          then show ?thesis using a1 a2 True by simp
        next
          case 2
          with True up pk show ?thesis by (intro 1(1) [OF _ _ a_def]) simp_all
        qed
      qed
    qed
  qed
qed

lemma find_peaks_bound: "k \<in> set (find_peaks x p) \<Longrightarrow> k < length x"
  using local_maxima_bound [of k x 1] by (auto simp: find_peaks_def)

lemma collect_features_in_range:
  "(\<forall>k \<in> set idxs. k < length angles \<and> k < length smoothed) \<Longrightarrow>
     collect_features angles smoothed idxs = Inr (map (make_feature angles smoothed) idxs)"
  by (induction idxs) simp_all

lemma collect_features_Inr:
  "collect_features angles smoothed idxs = Inr cs \<Longrightarrow>
     cs = map (make_feature angles smoothed) idxs"
  by (induction idxs arbitrary: cs) (auto split: if_splits sum.splits)

lemma candidate_indices_set:
  assumes "valid_set_order so"
  shows "distinct (candidate_indices so smoothed)"
    and "set (candidate_indices so smoothed) =
           set (find_peaks smoothed (np_std smoothed * (1/2)))
           \<union> set (find_peaks (map uminus smoothed) (np_std smoothed * (1/2)))"
  using assms by (simp_all add: candidate_indices_def Let_def valid_set_order_def)

lemma candidate_indices_bound:
  assumes "valid_set_order so" "k \<in> set (candidate_indices so smoothed)"
  shows "k < length smoothed"
proof -
  from assms have "k \<in> set (find_peaks smoothed (np_std smoothed * (1/2)))
      \<or> k \<in> set (find_peaks (map uminus smoothed) (np_std smoothed * (1/2)))"
    by (simp add: candidate_indices_set(2))
  then show ?thesis
    using find_peaks_bound [of k smoothed] find_peaks_bound [of k "map uminus smoothed"]
    by auto
qed

lemma extract_features_total:
  assumes "smooth ints = Inr y" "length y = length angles" "valid_set_order so"
  shows "extract_features smooth so angles ints =
           Inr (sort_key (\<lambda>f. - score f) (map (make_feature angles y) (candidate_indices so y)))"
proof -
  have "\<forall>k \<in> set (candidate_indices so y). k < length angles \<and> k < length y"
  proof
    fix k assume "k \<in> set (candidate_indices so y)"
    with assms(3) have "k < length y" by (rule candidate_indices_bound)
    with assms(2) show "k < length angles \<and> k < length y" by simp
  qed
  then have "collect_features angles y (candidate_indices so y) =
      Inr (map (make_feature angles y) (candidate_indices so y))"
    by (rule collect_features_in_range)
  with assms(1) show ?thesis by (simp add: extract_features_def)
qed

lemma sorted_neg_nth:
  assumes "sorted (map (\<lambda>f. - score f) fs)" "i \<le> j" "j < length fs"
  shows "score (fs ! j) \<le> score (fs ! i)"
proof -
  have "map (\<lambda>f. - score f) fs ! i \<le> map (\<lambda>f. - score f) fs ! j"
    using assms by (intro sorted_nth_mono) simp_all
  then show ?thesis using assms by simp
qed

lemma np_var_nonneg: "0 \<le> np_var xs"
proof -
  have "0 \<le> sum_list (map (\<lambda>v. (v - np_mean xs)\<^sup>2) xs)"
    by (rule sum_list_nonneg) auto
  then show ?thesis by (simp add: np_var_def np_mean_def)
qed

lemma half_std_le_iff: "np_std xs * (1/2) \<le> p \<longleftrightarrow> 0 \<le> p \<and> np_var xs \<le> (2 * p)\<^sup>2"
proof (cases "0 \<le> p")
  case False
  have "0 \<le> np_std xs" by (simp add: np_std_def np_var_nonneg)
  with False show ?thesis by simp
next
  case True
  define q where "q = 2 * p"
  have q0: "0 \<le> q" using True by (simp add: q_def)
  then have sq: "sqrt (q\<^sup>2) = q" by simp
  have "np_std xs * (1/2) \<le> p \<longleftrightarrow> sqrt (np_var xs) \<le> q"
    by (simp add: np_std_def q_def mult.commute)
  also have "\<dots> \<longleftrightarrow> sqrt (np_var xs) \<le> sqrt (q\<^sup>2)" by (simp only: sq)
  also have "\<dots> \<longleftrightarrow> np_var xs \<le> q\<^sup>2" by (rule real_sqrt_le_iff)
  finally show ?thesis using True by (simp add: q_def)
qed

lemma half_std_le_iff2: "np_std xs \<le> p * 2 \<longleftrightarrow> 0 \<le> p \<and> np_var xs \<le> (2 * p)\<^sup>2"
  using half_std_le_iff [of xs p] by simp

lemma valid_ascending_order: "valid_set_order ascending_order"
  by (simp add: valid_set_order_def ascending_order_def)

lemma valid_hash_slot_order: "valid_set_order (hash_slot_order m)"
  by (simp add: valid_set_order_def hash_slot_order_def)

lemma sort_key_map: "sort_key f (map g xs) = map g (sort_key (\<lambda>x. f (g x)) xs)"
proof (induction xs)
  case Nil
  show ?case by simp
next
  case (Cons x xs)
  have ins: "insort_key f (g x) (map g ys) = map g (insort_key (\<lambda>x. f (g x)) x ys)" for ys
    by (induction ys) simp_all
  show ?case by (simp add: Cons.IH ins)
qed

lemma load_data_zip:
  assumes "length as = length is" "2 \<le> length as"
  shows "load_data (map (\<lambda>(a, i). [a, i]) (zip as is)) = Some (as, is)"
proof -
  have "map (\<lambda>r. r ! 0) (map (\<lambda>(a, i). [a, i]) (zip as is)) = map fst (zip as is)"
    by (simp add: split_def)
  also have "\<dots> = as" using assms(1) by (simp only: map_fst_zip)
  finally have a: "as = map (\<lambda>r. r ! 0) (map (\<lambda>(a, i). [a, i]) (zip as is))" by simp
  have "map (\<lambda>r. r ! 1) (map (\<lambda>(a, i). [a, i]) (zip as is)) = map snd (zip as is)"
    by (simp add: split_def)
  also have "\<dots> = is" using assms(1) by (simp only: map_snd_zip)
  finally have b: "is = map (\<lambda>r. r ! 1) (map (\<lambda>(a, i). [a, i]) (zip as is))" by simp
  have c: "\<forall>r \<in> set (map (\<lambda>(a, i). [a, i]) (zip as is)). length r = 2" by auto
  have d: "2 \<le> length (map (\<lambda>(a, i). [a, i]) (zip as is))" using assms by simp
  from a b c d show ?thesis by (simp only: load_data_Some_iff)
qed

text \<open>The curve of zeros: smoothed it is the curve of zeros, and there is no extremum.\<close>

lemma savgol_zero: "savgol_exact zero_intensities = Inr (replicate 12 0)"
  by (simp add: savgol_exact_def zero_intensities_def sg_rows_def dot_def Let_def numeral_eq_Suc)

lemma load_zero_table: "load_data zero_table = Some (zero_angles, zero_intensities)"
  unfolding zero_table_def
  by (rule load_data_zip) (simp_all add: zero_angles_def zero_intensities_def)

text \<open>
  The curve with two samples 1: the smoothed curve, its extrema (the two maxima, the
  middle of the four zeros between the undershoots, and the four undershoots), their
  prominences, and the features.
\<close>

lemma savgol_spike: "savgol_exact spike_intensities = Inr spike_smoothed"
  by (simp add: savgol_exact_def spike_intensities_def spike_smoothed_def sg_rows_def dot_def
      Let_def)

lemma length_spike: "length spike_angles = 52" "length spike_smoothed = 52"
  "length spike_intensities = 52"
  by (simp_all add: spike_angles_def spike_smoothed_def spike_intensities_def)

lemma load_spike_table: "load_data spike_table = Some (spike_angles, spike_intensities)"
  unfolding spike_table_def
  by (rule load_data_zip) (simp_all add: length_spike)

lemma np_var_spike: "np_var spike_smoothed = 145 / 22308"
  by (simp add: np_var_def np_mean_def spike_smoothed_def power2_eq_square)

lemma local_maxima_spike:
  "local_maxima spike_smoothed 1 = [20, 27, 35]"
  "local_maxima (map uminus spike_smoothed) 1 = [15, 25, 30, 40]"
  by (simp_all add: local_maxima.simps plateau_end.simps spike_smoothed_def Let_def)

lemma prominence_spike:
  "prominence spike_smoothed 20 = 125 / 429"
  "prominence spike_smoothed 27 = 36 / 429"
  "prominence spike_smoothed 35 = 125 / 429"
  "prominence (map uminus spike_smoothed) 15 = 36 / 429"
  "prominence (map uminus spike_smoothed) 25 = 125 / 429"
  "prominence (map uminus spike_smoothed) 30 = 125 / 429"
  "prominence (map uminus spike_smoothed) 40 = 36 / 429"
  by (simp_all add: prominence_def spike_smoothed_def Let_def)

lemma find_peaks_spike:
  "find_peaks spike_smoothed (np_std spike_smoothed * (1/2)) = [20, 27, 35]"
  "find_peaks (map uminus spike_smoothed) (np_std spike_smoothed * (1/2)) = [15, 25, 30, 40]"
  unfolding find_peaks_def local_maxima_spike
  by (simp_all add: half_std_le_iff2 prominence_spike np_var_spike power2_eq_square)

lemma hash_slot_order_spike:
  "hash_slot_order 32 [20, 27, 35, 15, 25, 30, 40] = [35, 40, 15, 20, 25, 27, 30]"
  by (simp add: hash_slot_order_def)

lemma candidate_indices_spike:
  "candidate_indices ascending_order spike_smoothed = [15, 20, 25, 27, 30, 35, 40]"
  "candidate_indices (hash_slot_order 32) spike_smoothed = [35, 40, 15, 20, 25, 27, 30]"
  unfolding candidate_indices_def Let_def find_peaks_spike
  by (simp_all add: ascending_order_def hash_slot_order_spike)

lemma spike_features:
  "make_feature spike_angles spike_smoothed 15 =
     \<lparr> angle = 75, intensity = - 36 / 429, deviation = 15, score = - 90 / 429 \<rparr>"
  "make_feature spike_angles spike_smoothed 20 = peak_early"
  "make_feature spike_angles spike_smoothed 25 =
     \<lparr> angle = 90, intensity = - 36 / 429, deviation = 0, score = - 36 / 429 \<rparr>"
  "make_feature spike_angles spike_smoothed 27 =
     \<lparr> angle = 92, intensity = 0, deviation = 2, score = 0 \<rparr>"
  "make_feature spike_angles spike_smoothed 30 =
     \<lparr> angle = 95, intensity = - 36 / 429, deviation = 5, score = - 54 / 429 \<rparr>"
  "make_feature spike_angles spike_smoothed 35 = peak_late"
  "make_feature spike_angles spike_smoothed 40 =
     \<lparr> angle = 110, intensity = - 36 / 429, deviation = 20, score = - 108 / 429 \<rparr>"
  by (simp_all add: make_feature_def spike_angles_def spike_smoothed_def Let_def
      peak_early_def peak_late_def)

lemma sorted_spike:
  "sort_key (\<lambda>f. - score f) (map (make_feature spike_angles spike_smoothed)
       [15, 20, 25, 27, 30, 35, 40]) =
     map (make_feature spike_angles spike_smoothed) [20, 35, 27, 25, 30, 15, 40]"
  "sort_key (\<lambda>f. - score f) (map (make_feature spike_angles spike_smoothed)
       [35, 40, 15, 20, 25, 27, 30]) =
     map (make_feature spike_angles spike_smoothed) [35, 20, 27, 25, 30, 15, 40]"
  unfolding sort_key_map
  by (simp_all add: spike_features peak_early_def peak_late_def)

lemma extract_spike_ascending:
  "extract_features savgol_exact ascending_order spike_angles spike_intensities =
     Inr (map (make_feature spike_angles spike_smoothed) [20, 35, 27, 25, 30, 15, 40])"
proof -
  have "length spike_smoothed = length spike_angles" by (simp add: length_spike)
  with savgol_spike have "extract_features savgol_exact ascending_order spike_angles
      spike_intensities = Inr (sort_key (\<lambda>f. - score f)
        (map (make_feature spike_angles spike_smoothed)
           (candidate_indices ascending_order spike_smoothed)))"
    using valid_ascending_order by (rule extract_features_total)
  then show ?thesis by (simp only: candidate_indices_spike sorted_spike)
qed

lemma extract_spike_hash:
  "extract_features savgol_exact (hash_slot_order 32) spike_angles spike_intensities =
     Inr (map (make_feature spike_angles spike_smoothed) [35, 20, 27, 25, 30, 15, 40])"
proof -
  have "length spike_smoothed = length spike_angles" by (simp add: length_spike)
  with savgol_spike have "extract_features savgol_exact (hash_slot_order 32) spike_angles
      spike_intensities = Inr (sort_key (\<lambda>f. - score f)
        (map (make_feature spike_angles spike_smoothed)
           (candidate_indices (hash_slot_order 32) spike_smoothed)))"
    using valid_hash_slot_order by (rule extract_features_total)
  then show ?thesis by (simp only: candidate_indices_spike sorted_spike)
qed

lemma angles_spike:
  "map angle (map (make_feature spike_angles spike_smoothed) [20, 35, 27, 25, 30, 15, 40]) =
     [80, 100, 92, 90, 95, 75, 110]"
  "map angle (map (make_feature spike_angles spike_smoothed) [35, 20, 27, 25, 30, 15, 40]) =
     [100, 80, 92, 90, 95, 75, 110]"
  by (simp_all add: spike_features peak_early_def peak_late_def)

lemma max_score_spike:
  "Max (score ` set (take 50
     (map (make_feature spike_angles spike_smoothed) [20, 35, 27, 25, 30, 15, 40]))) = 178 / 429"
  by (simp add: spike_features peak_early_def peak_late_def)

lemma process_file_cases:
  assumes "load_data table = Some (angles, ints)"
  shows "extract_features sm so angles ints = Inl e \<Longrightarrow> process_file sm so cfg table g = Inl e"
    and "extract_features sm so angles ints = Inr [] \<Longrightarrow>
          process_file sm so cfg table g = Inr (None, g)"
    and "extract_features sm so angles ints = Inr fs \<Longrightarrow> fs \<noteq> [] \<Longrightarrow>
          Max (score ` set (take 50 fs)) \<noteq> 0 \<Longrightarrow>
          \<exists>midi. process_file sm so cfg table g =
            Inr (Some midi, \<lambda>k. g (k + 3 * nat \<lfloor>max_duration cfg / 3\<rfloor>))"
    and "extract_features sm so angles ints = Inr fs \<Longrightarrow> fs \<noteq> [] \<Longrightarrow>
          Max (score ` set (take 50 fs)) = 0 \<Longrightarrow>
          process_file sm so cfg table g = Inl ValueError"
proof -
  show "extract_features sm so angles ints = Inl e \<Longrightarrow> process_file sm so cfg table g = Inl e"
    using assms by (simp add: process_file_def)
  show "extract_features sm so angles ints = Inr [] \<Longrightarrow>
          process_file sm so cfg table g = Inr (None, g)"
    using assms by (simp add: process_file_def)
  show "\<exists>midi. process_file sm so cfg table g =
            Inr (Some midi, \<lambda>k. g (k + 3 * nat \<lfloor>max_duration cfg / 3\<rfloor>))"
    if e: "extract_features sm so angles ints = Inr fs" and ne: "fs \<noteq> []"
      and nz: "Max (score ` set (take 50 fs)) \<noteq> 0"
  proof -
    from ne have "take 50 fs \<noteq> []" by simp
    from add_melody_generate_events [OF this, of cfg] nz
    obtain ns where "add_melody (generate_events cfg (take 50 fs)) = Inr ns" by auto
    then show ?thesis
      using assms e ne by (simp add: process_file_def create_midi_eq)
  qed
  show "process_file sm so cfg table g = Inl ValueError"
    if e: "extract_features sm so angles ints = Inr fs" and ne: "fs \<noteq> []"
      and z: "Max (score ` set (take 50 fs)) = 0"
  proof -
    from ne have "take 50 fs \<noteq> []" by simp
    from add_melody_generate_events [OF this, of cfg] z
    have "add_melody (generate_events cfg (take 50 fs)) = Inl ValueError" by simp
    then show ?thesis
      using assms e ne by (simp add: process_file_def create_midi_eq)
  qed
qed

text \<open>
  A check of the table \<open>sg_rows\<close>: row \<open>k\<close> applied to the samples of a cubic at
  \<open>0, \<dots>, 10\<close> returns the cubic at \<open>k\<close>, as the evaluation of a least-squares cubic
  fit must.
\<close>

lemma sg_rows_cubic:
  assumes "k < 11"
  shows "dot (sg_rows ! k) (map (\<lambda>t. a + b * t + c * t\<^sup>2 + d * t^3) [0, 1, 2, 3, 4, 5, 6, 7, 8, 9, 10])
           = a + b * real k + c * (real k)\<^sup>2 + d * (real k)^3"
proof -
  from assms have "k = 0 \<or> k = 1 \<or> k = 2 \<or> k = 3 \<or> k = 4 \<or> k = 5 \<or> k = 6 \<or> k = 7
      \<or> k = 8 \<or> k = 9 \<or> k = 10" by arith
  then show ?thesis
    by (elim disjE) (simp_all add: sg_rows_def dot_def nth_Cons' power2_eq_square power3_eq_cube, argo+)
qed

lemma extract_features_descending:
  assumes "extract_features sm so angles ints = Inr feats" "i \<le> j" "j < length (take n feats)"
  shows "score (take n feats ! j) \<le> score (take n feats ! i)"
proof -
  from assms(1) obtain cs where "feats = sort_key (\<lambda>f. - score f) cs"
    by (auto simp: extract_features_def split: sum.splits)
  then have "sorted (map (\<lambda>f. - score f) feats)" by (simp only: sorted_sort_key)
  then have "sorted (take n (map (\<lambda>f. - score f) feats))" by (rule sorted_wrt_take)
  then have "sorted (map (\<lambda>f. - score f) (take n feats))" by (simp only: take_map)
  then show ?thesis using assms(2,3) by (rule sorted_neg_nth)
qed

section \<open>Ranking\<close>

text \<open>
  Claim C2, as amended. The features are returned in score-descending order, and the
  result is the stable sort of the features listed in the order in which the set of
  extremum indices is iterated: features of equal score keep that order. The order of
  ties is thus fixed by the set-iteration order, not by the sample index.
\<close>

theorem extract_features_order:
  assumes "extract_features smooth so angles ints = Inr fs"
  shows "(\<forall>i j. i \<le> j \<and> j < length fs \<longrightarrow> score (fs ! j) \<le> score (fs ! i))
     \<and> (\<exists>smoothed. smooth ints = Inr smoothed
          \<and> fs = sort_key (\<lambda>f. - score f)
                   (map (make_feature angles smoothed) (candidate_indices so smoothed))
          \<and> (\<forall>s. filter (\<lambda>f. score f = s) fs =
                   filter (\<lambda>f. score f = s)
                     (map (make_feature angles smoothed) (candidate_indices so smoothed))))"
proof -
  from assms obtain smoothed cs where
    sm: "smooth ints = Inr smoothed"
    and cs: "collect_features angles smoothed (candidate_indices so smoothed) = Inr cs"
    and fs: "fs = sort_key (\<lambda>f. - score f) cs"
    by (auto simp: extract_features_def split: sum.splits)
  have cs': "cs = map (make_feature angles smoothed) (candidate_indices so smoothed)"
    using cs by (rule collect_features_Inr)
  have "sorted (map (\<lambda>f. - score f) fs)" unfolding fs by (rule sorted_sort_key)
  then have a: "\<forall>i j. i \<le> j \<and> j < length fs \<longrightarrow> score (fs ! j) \<le> score (fs ! i)"
    by (auto intro: sorted_neg_nth)
  have b: "filter (\<lambda>f. score f = s) fs = filter (\<lambda>f. score f = s) cs" for s
  proof -
    have "filter (\<lambda>f. - score f = - s) (sort_key (\<lambda>f. - score f) cs) =
          filter (\<lambda>f. - score f = - s) cs"
      by (rule sort_key_stable)
    then show ?thesis by (simp add: fs)
  qed
  from sm fs a b show ?thesis unfolding cs' by blast
qed

theorem extract_features_order_witness:
  "extract_features savgol_exact (hash_slot_order 32) spike_angles spike_intensities =
     Inr (map (make_feature spike_angles spike_smoothed) [35, 20, 27, 25, 30, 15, 40])
   \<and> score (make_feature spike_angles spike_smoothed 27)
       \<le> score (make_feature spike_angles spike_smoothed 20)
   \<and> filter (\<lambda>f. score f = 178 / 429)
       (map (make_feature spike_angles spike_smoothed) [35, 20, 27, 25, 30, 15, 40]) =
     filter (\<lambda>f. score f = 178 / 429)
       (map (make_feature spike_angles spike_smoothed) [35, 40, 15, 20, 25, 27, 30])
   \<and> filter (\<lambda>f. score f = 178 / 429)
       (map (make_feature spike_angles spike_smoothed) [35, 20, 27, 25, 30, 15, 40]) =
     [peak_late, peak_early]"
proof -
  let ?fs = "map (make_feature spike_angles spike_smoothed) [35, 20, 27, 25, 30, 15, 40]"
  note w = extract_features_order [OF extract_spike_hash]
  from w have "\<forall>i j. i \<le> j \<and> j < length ?fs \<longrightarrow> score (?fs ! j) \<le> score (?fs ! i)" by blast
  then have "(1::nat) \<le> 2 \<and> 2 < length ?fs \<longrightarrow> score (?fs ! 2) \<le> score (?fs ! 1)" by blast
  then have a: "score (make_feature spike_angles spike_smoothed 27)
       \<le> score (make_feature spike_angles spike_smoothed 20)" by simp
  from w obtain smoothed where sm: "savgol_exact spike_intensities = Inr smoothed"
    and st: "\<forall>s. filter (\<lambda>f. score f = s) ?fs =
                   filter (\<lambda>f. score f = s)
                     (map (make_feature spike_angles smoothed)
                        (candidate_indices (hash_slot_order 32) smoothed))"
    by blast
  from sm have "smoothed = spike_smoothed" by (simp add: savgol_spike)
  with st have b: "filter (\<lambda>f. score f = 178 / 429) ?fs =
       filter (\<lambda>f. score f = 178 / 429)
         (map (make_feature spike_angles spike_smoothed) [35, 40, 15, 20, 25, 27, 30])"
    by (simp only: candidate_indices_spike)
  have c: "filter (\<lambda>f. score f = 178 / 429) ?fs = [peak_late, peak_early]"
    by (simp add: spike_features) (simp add: peak_early_def peak_late_def)
  from a b c extract_spike_hash show ?thesis by blast
qed

text \<open>
  Claim C2 as stated fails. On the curve with two samples 1 the two maxima, at the
  indices 20 and 35, tie in score. CPython iterates the set of the seven extremum indices
  in the order 35, 40, 15, 20, 25, 27, 30 (by slot in a table of 32), so the feature of
  index 35 is returned before the feature of index 20, against the ascending sample
  index; under the ascending iteration order the two change places: the result depends
  on the set-iteration order.
\<close>

theorem tie_order_counterexample:
  "map_sum id (map angle)
     (extract_features savgol_exact (hash_slot_order 32) spike_angles spike_intensities) =
       Inr [100, 80, 92, 90, 95, 75, 110]
   \<and> map_sum id (map angle)
     (extract_features savgol_exact ascending_order spike_angles spike_intensities) =
       Inr [80, 100, 92, 90, 95, 75, 110]
   \<and> map_sum id (take 2)
     (extract_features savgol_exact (hash_slot_order 32) spike_angles spike_intensities) =
       Inr [peak_late, peak_early]
   \<and> map_sum id (take 2)
     (extract_features savgol_exact ascending_order spike_angles spike_intensities) =
       Inr [peak_early, peak_late]
   \<and> score peak_late = score peak_early
   \<and> peak_early = make_feature spike_angles spike_smoothed 20
   \<and> peak_late = make_feature spike_angles spike_smoothed 35
   \<and> hash_slot_order 32 [20, 27, 35, 15, 25, 30, 40] = [35, 40, 15, 20, 25, 27, 30]
   \<and> valid_set_order (hash_slot_order 32) \<and> valid_set_order ascending_order"
  by (simp add: extract_spike_hash extract_spike_ascending spike_features
      hash_slot_order_spike valid_ascending_order valid_hash_slot_order)
     (simp add: peak_early_def peak_late_def)

section \<open>Too little data\<close>

text \<open>
  Claim C1, as amended. The source defines no \<open>InsufficientDataError\<close>. With fewer than 11
  samples extraction fails with the \<open>ValueError\<close> of the smoothing filter, which
  \<open>process_file\<close> lets through. With at least 11 samples (and as many angles) it returns
  the features of all extrema of the smoothed curve that pass the prominence filter, each
  once, sorted by score, whatever their number; a smoothed curve that is constant has no
  extremum and gives the empty list. The two columns \<open>process_file\<close> loads are equally
  long. \<open>process_file\<close> answers the empty list by returning
  \<open>False\<close>; for any other list, also of a single feature, it goes on to the MIDI file,
  which it writes unless the greatest score of the first 50 features is zero, when the
  note of duration nan is refused with \<open>ValueError\<close>.
\<close>

theorem extract_features_outcomes:
  assumes "valid_smoother smooth" "valid_set_order so"
  shows "(length ints < 11 \<longrightarrow> extract_features smooth so angles ints = Inl ValueError)
   \<and> (11 \<le> length ints \<and> length angles = length ints \<longrightarrow>
        (\<exists>smoothed. smooth ints = Inr smoothed \<and> length smoothed = length ints
           \<and> extract_features smooth so angles ints =
               Inr (sort_key (\<lambda>f. - score f)
                      (map (make_feature angles smoothed) (candidate_indices so smoothed)))
           \<and> distinct (candidate_indices so smoothed)
           \<and> set (candidate_indices so smoothed) =
               set (find_peaks smoothed (np_std smoothed * (1/2)))
               \<union> set (find_peaks (map uminus smoothed) (np_std smoothed * (1/2)))))
   \<and> (smooth ints = Inr (replicate n c) \<longrightarrow> extract_features smooth so angles ints = Inr [])
   \<and> (load_data table = Some (angles, ints) \<longrightarrow> length angles = length ints)
   \<and> (load_data table = Some (angles, ints) \<and> extract_features smooth so angles ints = Inl e \<longrightarrow>
        process_file smooth so cfg table g = Inl e)
   \<and> (load_data table = Some (angles, ints) \<and> extract_features smooth so angles ints = Inr [] \<longrightarrow>
        process_file smooth so cfg table g = Inr (None, g))
   \<and> (load_data table = Some (angles, ints) \<and> extract_features smooth so angles ints = Inr fs
        \<and> fs \<noteq> [] \<and> Max (score ` set (take 50 fs)) \<noteq> 0 \<longrightarrow>
        (\<exists>midi. process_file smooth so cfg table g =
           Inr (Some midi, \<lambda>k. g (k + 3 * nat \<lfloor>max_duration cfg / 3\<rfloor>))))
   \<and> (load_data table = Some (angles, ints) \<and> extract_features smooth so angles ints = Inr fs
        \<and> fs \<noteq> [] \<and> Max (score ` set (take 50 fs)) = 0 \<longrightarrow>
        process_file smooth so cfg table g = Inl ValueError)"
proof (intro conjI impI)
  assume "length ints < 11"
  with assms(1) have "smooth ints = Inl ValueError" by (simp add: valid_smoother_def)
  then show "extract_features smooth so angles ints = Inl ValueError"
    by (simp add: extract_features_def)
next
  assume h: "11 \<le> length ints \<and> length angles = length ints"
  with assms(1) obtain y where y: "smooth ints = Inr y" "length y = length ints"
    unfolding valid_smoother_def by blast
  from h y(2) have l: "length y = length angles" by simp
  have "extract_features smooth so angles ints =
           Inr (sort_key (\<lambda>f. - score f) (map (make_feature angles y) (candidate_indices so y)))"
    using y(1) l assms(2) by (rule extract_features_total)
  with y candidate_indices_set [OF assms(2), of y]
  show "\<exists>smoothed. smooth ints = Inr smoothed \<and> length smoothed = length ints
           \<and> extract_features smooth so angles ints =
               Inr (sort_key (\<lambda>f. - score f)
                      (map (make_feature angles smoothed) (candidate_indices so smoothed)))
           \<and> distinct (candidate_indices so smoothed)
           \<and> set (candidate_indices so smoothed) =
               set (find_peaks smoothed (np_std smoothed * (1/2)))
               \<union> set (find_peaks (map uminus smoothed) (np_std smoothed * (1/2)))"
    by blast
next
  assume "smooth ints = Inr (replicate n c)"
  then show "extract_features smooth so angles ints = Inr []"
    using assms(2) by (rule extract_features_flat)
next
  assume "load_data table = Some (angles, ints)"
  then show "length angles = length ints" by (simp add: load_data_Some_iff)
next
  assume "load_data table = Some (angles, ints) \<and> extract_features smooth so angles ints = Inl e"
  then show "process_file smooth so cfg table g = Inl e"
    by (intro process_file_cases(1) [of table angles ints]) simp_all
next
  assume "load_data table = Some (angles, ints) \<and> extract_features smooth so angles ints = Inr []"
  then show "process_file smooth so cfg table g = Inr (None, g)"
    by (intro process_file_cases(2) [of table angles ints]) simp_all
next
  assume "load_data table = Some (angles, ints) \<and> extract_features smooth so angles ints = Inr fs
        \<and> fs \<noteq> [] \<and> Max (score ` set (take 50 fs)) \<noteq> 0"
  then show "\<exists>midi. process_file smooth so cfg table g =
           Inr (Some midi, \<lambda>k. g (k + 3 * nat \<lfloor>max_duration cfg / 3\<rfloor>))"
    by (intro process_file_cases(3) [of table angles ints _ _ fs]) simp_all
next
  assume "load_data table = Some (angles, ints) \<and> extract_features smooth so angles ints = Inr fs
        \<and> fs \<noteq> [] \<and> Max (score ` set (take 50 fs)) = 0"
  then show "process_file smooth so cfg table g = Inl ValueError"
    by (intro process_file_cases(4) [of table angles ints _ _ fs]) simp_all
qed

theorem extract_features_outcomes_witness:
  "extract_features savgol_exact ascending_order [80, 90, 100] [1, 5, 1] = Inl ValueError
   \<and> extract_features savgol_exact ascending_order zero_angles zero_intensities = Inr []
   \<and> process_file savgol_exact ascending_order default_config zero_table example_rng =
       Inr (None, example_rng)
   \<and> extract_features savgol_exact ascending_order spike_angles spike_intensities =
       Inr (map (make_feature spike_angles spike_smoothed) [20, 35, 27, 25, 30, 15, 40])
   \<and> (\<exists>midi. process_file savgol_exact ascending_order default_config spike_table example_rng =
        Inr (Some midi, \<lambda>k. example_rng (k + 90)))"
proof -
  note t = extract_features_outcomes [OF valid_savgol_exact valid_ascending_order]
  note w1 = t [where ints = "[1, 5, 1]" and angles = "[80, 90, 100]"]
  have a: "extract_features savgol_exact ascending_order [80, 90, 100] [1, 5, 1] = Inl ValueError"
    using w1 by simp
  note w2 = t [where ints = zero_intensities and angles = zero_angles and n = 12 and c = 0
      and table = zero_table and cfg = default_config and g = example_rng]
  from w2 savgol_zero
  have b: "extract_features savgol_exact ascending_order zero_angles zero_intensities = Inr []"
    by blast
  from w2 b load_zero_table
  have c: "process_file savgol_exact ascending_order default_config zero_table example_rng =
      Inr (None, example_rng)" by blast
  note w3 = t [where ints = spike_intensities and angles = spike_angles
      and table = spike_table and cfg = default_config and g = example_rng
      and fs = "map (make_feature spike_angles spike_smoothed) [20, 35, 27, 25, 30, 15, 40]"]
  have h3: "11 \<le> length spike_intensities \<and> length spike_angles = length spike_intensities"
    by (simp add: length_spike)
  from w3 h3 obtain smoothed where sm: "savgol_exact spike_intensities = Inr smoothed"
    and ex: "extract_features savgol_exact ascending_order spike_angles spike_intensities =
               Inr (sort_key (\<lambda>f. - score f)
                      (map (make_feature spike_angles smoothed)
                         (candidate_indices ascending_order smoothed)))"
    by blast
  from sm have "smoothed = spike_smoothed" by (simp add: savgol_spike)
  with ex have d: "extract_features savgol_exact ascending_order spike_angles spike_intensities =
       Inr (map (make_feature spike_angles spike_smoothed) [20, 35, 27, 25, 30, 15, 40])"
    by (simp only: candidate_indices_spike sorted_spike)
  have ne: "map (make_feature spike_angles spike_smoothed) [20, 35, 27, 25, 30, 15, 40] \<noteq> []"
    by simp
  have nz: "Max (score ` set (take 50
     (map (make_feature spike_angles spike_smoothed) [20, 35, 27, 25, 30, 15, 40]))) \<noteq> 0"
    by (simp only: max_score_spike)
  from w3 load_spike_table d ne nz
  have "\<exists>midi. process_file savgol_exact ascending_order default_config spike_table example_rng =
        Inr (Some midi, \<lambda>k. example_rng (k + 3 * nat \<lfloor>max_duration default_config / 3\<rfloor>))"
    by blast
  moreover have "3 * nat \<lfloor>max_duration default_config / 3\<rfloor> = 90"
    by (simp add: default_config_def)
  ultimately have e: "\<exists>midi. process_file savgol_exact ascending_order default_config
        spike_table example_rng = Inr (Some midi, \<lambda>k. example_rng (k + 90))"
    by simp
  from a b c d e show ?thesis by blast
qed

text \<open>
  Claim C1 as stated fails: for twelve samples of intensity 0 (identical intensities, no
  extremum at all) extraction raises nothing and returns the empty list, and
  \<open>process_file\<close> returns \<open>False\<close>.
\<close>

theorem no_insufficient_data_error:
  "extract_features savgol_exact ascending_order zero_angles zero_intensities = Inr []
   \<and> process_file savgol_exact ascending_order default_config zero_table example_rng =
       Inr (None, example_rng)
   \<and> length zero_intensities = 12 \<and> set zero_intensities = {0}"
proof -
  have a: "extract_features savgol_exact ascending_order zero_angles zero_intensities = Inr []"
    using savgol_zero valid_ascending_order by (rule extract_features_flat)
  have b: "process_file savgol_exact ascending_order default_config zero_table example_rng =
      Inr (None, example_rng)"
    using load_zero_table a by (rule process_file_cases(2))
  have c: "length zero_intensities = 12 \<and> set zero_intensities = {0}"
    by (simp add: zero_intensities_def)
  from a b c show ?thesis by blast
qed

section \<open>Onsets\<close>

text \<open>
  Claim C5. For a feature list of length \<open>N\<close>, event generation produces \<open>N\<close> events whose
  onsets are \<open>linspace(0.1, max_duration, N)\<close>: exactly \<open>0.1\<close> for \<open>N = 1\<close>, and for \<open>N > 1\<close>
  evenly spaced from \<open>0.1\<close> to \<open>max_duration\<close> inclusive. With \<open>0.1 \<le> max_duration\<close> the onsets
  are non-decreasing in emission order. The i-th event is built from the i-th onset and
  the i-th feature; for a list in score-descending order, and so for the first 50
  features that extraction returns (the list \<open>process_file\<close> passes), a feature that
  scores higher never starts later.
\<close>

theorem onset_times:
  assumes "1/10 \<le> max_duration cfg"
  shows "length (generate_events cfg fs) = length fs
     \<and> map time (generate_events cfg fs) = linspace (1/10) (max_duration cfg) (length fs)
     \<and> (length fs = 1 \<longrightarrow> map time (generate_events cfg fs) = [1/10])
     \<and> (1 < length fs \<longrightarrow>
          (\<forall>i<length fs. time (generate_events cfg fs ! i) =
              1/10 + real i * ((max_duration cfg - 1/10) / real (length fs - 1)))
          \<and> time (generate_events cfg fs ! 0) = 1/10
          \<and> time (generate_events cfg fs ! (length fs - 1)) = max_duration cfg)
     \<and> sorted (map time (generate_events cfg fs))
     \<and> (\<forall>i<length fs. generate_events cfg fs ! i =
            make_event cfg (Min (intensity ` set fs)) (Max (intensity ` set fs))
              (Max (score ` set fs))
              (linspace (1/10) (max_duration cfg) (length fs) ! i) (fs ! i))
     \<and> (sorted (rev (map score fs)) \<longrightarrow>
          (\<forall>i j. i \<le> j \<and> j < length fs \<longrightarrow>
             score (fs ! j) \<le> score (fs ! i)
             \<and> time (generate_events cfg fs ! i) \<le> time (generate_events cfg fs ! j)))
     \<and> (extract_features smooth set_order angles intensities = Inr features \<and> fs = take 50 features \<longrightarrow>
          (\<forall>i j. i \<le> j \<and> j < length fs \<longrightarrow>
             score (fs ! j) \<le> score (fs ! i)
             \<and> time (generate_events cfg fs ! i) \<le> time (generate_events cfg fs ! j)))"
proof -
  let ?evs = "generate_events cfg fs"
  let ?ts = "linspace (1/10) (max_duration cfg) (length fs)"
  have len: "length ?evs = length fs" by (rule length_generate_events)
  have ts: "map time ?evs = ?ts" by (rule map_time_generate_events)
  have nth_t: "time (?evs ! i) = ?ts ! i" if "i < length fs" for i
  proof -
    have "map time ?evs ! i = ?ts ! i" by (simp only: ts)
    then show ?thesis using that len by simp
  qed
  have one: "length fs = 1 \<longrightarrow> map time ?evs = [1/10]"
    by (simp add: ts linspace_def)
  have many: "1 < length fs \<longrightarrow>
          (\<forall>i<length fs. time (?evs ! i) =
              1/10 + real i * ((max_duration cfg - 1/10) / real (length fs - 1)))
          \<and> time (?evs ! 0) = 1/10
          \<and> time (?evs ! (length fs - 1)) = max_duration cfg"
  proof (intro impI conjI allI)
    assume n: "1 < length fs"
    show "time (?evs ! i) =
              1/10 + real i * ((max_duration cfg - 1/10) / real (length fs - 1))"
      if "i < length fs" for i
      using n that by (simp add: nth_t nth_linspace)
    have "time (?evs ! 0) = ?ts ! 0" using n by (intro nth_t) auto
    moreover have "?ts ! 0 = 1/10" using n by (subst nth_linspace) auto
    ultimately show "time (?evs ! 0) = 1/10" by simp
    have "time (?evs ! (length fs - 1)) = ?ts ! (length fs - 1)" using n by (intro nth_t) auto
    moreover have "?ts ! (length fs - 1) = max_duration cfg" using n by (rule linspace_last)
    ultimately show "time (?evs ! (length fs - 1)) = max_duration cfg" by simp
  qed
  have srt: "sorted (map time ?evs)"
    unfolding ts using assms by (rule sorted_linspace)
  have pair: "\<forall>i<length fs. ?evs ! i =
            make_event cfg (Min (intensity ` set fs)) (Max (intensity ` set fs))
              (Max (score ` set fs)) (?ts ! i) (fs ! i)"
    by (simp add: generate_events_nth_Max)
  have desc: "sorted (rev (map score fs)) \<longrightarrow>
          (\<forall>i j. i \<le> j \<and> j < length fs \<longrightarrow>
             score (fs ! j) \<le> score (fs ! i) \<and> time (?evs ! i) \<le> time (?evs ! j))"
  proof (intro impI allI conjI)
    fix i j assume s: "sorted (rev (map score fs))" and ij: "i \<le> j \<and> j < length fs"
    have "map score fs ! j \<le> map score fs ! i"
      using s ij by (intro sorted_rev_nth) simp_all
    then show "score (fs ! j) \<le> score (fs ! i)" using ij by simp
    show "time (?evs ! i) \<le> time (?evs ! j)"
      using ij assms by (simp add: nth_t linspace_mono)
  qed
  have pipe: "extract_features smooth set_order angles intensities = Inr features \<and> fs = take 50 features \<longrightarrow>
          (\<forall>i j. i \<le> j \<and> j < length fs \<longrightarrow>
             score (fs ! j) \<le> score (fs ! i) \<and> time (?evs ! i) \<le> time (?evs ! j))"
  proof (intro impI allI conjI)
    fix i j
    assume e: "extract_features smooth set_order angles intensities = Inr features \<and> fs = take 50 features"
      and ij: "i \<le> j \<and> j < length fs"
    from e ij have "score (take 50 features ! j) \<le> score (take 50 features ! i)"
      by (intro extract_features_descending [of smooth set_order angles intensities]) simp_all
    with e show "score (fs ! j) \<le> score (fs ! i)" by simp
    show "time (?evs ! i) \<le> time (?evs ! j)"
      using ij assms by (simp add: nth_t linspace_mono)
  qed
  from len ts one many srt pair desc pipe show ?thesis by blast
qed

theorem onset_times_witness:
  "map time (generate_events default_config [feature_a, feature_b, feature_c]) = [1/10, 901/20, 90]
   \<and> sorted (map time (generate_events default_config [feature_a, feature_b, feature_c]))
   \<and> map time (generate_events default_config [feature_a]) = [1/10]"
proof -
  have h: "1/10 \<le> max_duration default_config" by (simp add: default_config_def)
  have l: "linspace (1/10) (max_duration default_config) (length [feature_a, feature_b, feature_c])
             = [1/10, 901/20, 90]"
    by (simp add: linspace_def default_config_def upt_rec)
  have a: "map time (generate_events default_config [feature_a, feature_b, feature_c]) =
             linspace (1/10) (max_duration default_config) (length [feature_a, feature_b, feature_c])"
    and b: "sorted (map time (generate_events default_config [feature_a, feature_b, feature_c]))"
    using onset_times [OF h, of "[feature_a, feature_b, feature_c]"] by blast+
  have "length [feature_a] = 1" by simp
  then have c: "map time (generate_events default_config [feature_a]) = [1/10]"
    using onset_times [OF h, of "[feature_a]"] by blast
  from a b c l show ?thesis by simp
qed

end
